theory Spec2Isabelle
  imports Main
begin

section \<open>JavaScript strings\<close>

text \<open>
  A string is a list of code units. Isabelle's \<open>char\<close> has 256 values, read here as the
  code units \<open>0x00\<close>--\<open>0xFF\<close> (Latin-1): the model covers the strings whose code units
  all lie in that range.
\<close>

text \<open>\<open>String.prototype.toLowerCase\<close> on one code unit: \<open>A\<close>--\<open>Z\<close> and the Latin-1
  capitals \<open>0xC0\<close>--\<open>0xDE\<close> (without the multiplication sign \<open>0xD7\<close>) move up by 32.\<close>

definition lower_char :: "char \<Rightarrow> char" where
  "lower_char c =
     (let n = (of_char c :: nat) in
      if (65 \<le> n \<and> n \<le> 90) \<or> (192 \<le> n \<and> n \<le> 222 \<and> n \<noteq> 215)
      then char_of (n + 32) else c)"

definition toLowerCase :: "string \<Rightarrow> string" where
  "toLowerCase s = map lower_char s"

text \<open>The regular-expression class \<open>\w\<close>: \<open>[A-Za-z0-9_]\<close>.\<close>

definition is_word_char :: "char \<Rightarrow> bool" where
  "is_word_char c =
     (let n = (of_char c :: nat) in
      (48 \<le> n \<and> n \<le> 57) \<or> (65 \<le> n \<and> n \<le> 90) \<or> (97 \<le> n \<and> n \<le> 122) \<or> n = 95)"

text \<open>What \<open>String.prototype.trim\<close> removes, within the range: tab, line feed, vertical
  tab, form feed, carriage return, space and the no-break space \<open>0xA0\<close>.\<close>

definition is_js_space :: "char \<Rightarrow> bool" where
  "is_js_space c =
     (let n = (of_char c :: nat) in (9 \<le> n \<and> n \<le> 13) \<or> n = 32 \<or> n = 160)"

definition js_trim :: "string \<Rightarrow> string" where
  "js_trim s = dropWhile is_js_space (rev (dropWhile is_js_space (rev s)))"

text \<open>\<open>s.replace(/[cls]+/g, rep)\<close> for a character class \<open>cls\<close>: every maximal run of
  characters of the class is replaced by \<open>rep\<close>.\<close>

function replace_runs :: "(char \<Rightarrow> bool) \<Rightarrow> string \<Rightarrow> string \<Rightarrow> string" where
  "replace_runs cls rep [] = []"
| "replace_runs cls rep (c # cs) =
     (if cls c then rep @ replace_runs cls rep (dropWhile cls cs)
      else c # replace_runs cls rep cs)"
  by pat_completeness auto
termination
  by (relation "measure (\<lambda>(cls, rep, s). length s)")
     (auto simp: le_imp_less_Suc length_dropWhile_le)

text \<open>\<open>s.startsWith(p)\<close>.\<close>

definition startsWith :: "string \<Rightarrow> string \<Rightarrow> bool" where
  "startsWith p s = (take (length p) s = p)"

text \<open>\<open>s.split(sep)\<close> for a one-character separator; the result is never empty.\<close>

fun js_split :: "char \<Rightarrow> string \<Rightarrow> string list" where
  "js_split sep [] = [[]]"
| "js_split sep (c # cs) =
     (if c = sep then [] # js_split sep cs
      else (case js_split sep cs of
              [] \<Rightarrow> [[c]]
            | w # ws \<Rightarrow> (c # w) # ws))"

text \<open>\<open>xs[i]\<close>: \<open>None\<close> stands for \<open>undefined\<close>, which JavaScript yields out of range.\<close>

definition js_index :: "'a list \<Rightarrow> nat \<Rightarrow> 'a option" where
  "js_index xs i = (if i < length xs then Some (xs ! i) else None)"

section \<open>Slug derivation (\<open>models/Category.js\<close>)\<close>

text \<open>
  The right-hand side of the assignment in the pre-save hook:
  \<^verbatim>\<open>name.toLowerCase().replace(/[^\w ]+/g, '').trim().replace(/ +/g, '-')\<close>
\<close>

definition not_word_or_space :: "char \<Rightarrow> bool" where
  "not_word_or_space c = (\<not> (is_word_char c \<or> c = CHR '' ''))"

definition is_blank :: "char \<Rightarrow> bool" where
  "is_blank c = (c = CHR '' '')"

definition slugify :: "string \<Rightarrow> string" where
  "slugify name =
     replace_runs is_blank ''-''
       (js_trim (replace_runs not_word_or_space [] (toLowerCase name)))"

text \<open>
  The derivation as the specification words it: lowercase, keep only word characters and
  spaces, trim, and put one hyphen for each run of whitespace between the words.
\<close>

function split_runs :: "(char \<Rightarrow> bool) \<Rightarrow> string \<Rightarrow> string list" where
  "split_runs sep s =
     (let t = dropWhile sep s in
      if t = [] then []
      else takeWhile (\<lambda>c. \<not> sep c) t # split_runs sep (dropWhile (\<lambda>c. \<not> sep c) t))"
  by pat_completeness auto
termination
proof (relation "measure (\<lambda>(sep, s). length s)")
  show "wf (measure (\<lambda>(sep :: char \<Rightarrow> bool, s :: string). length s))" by simp
next
  fix sep :: "char \<Rightarrow> bool" and s t :: string
  assume t: "t = dropWhile sep s" and ne: "t \<noteq> []"
  obtain c cs where tc: "t = c # cs" using ne by (cases t) auto
  have "\<not> sep c" using t tc by (metis hd_dropWhile list.sel(1) ne)
  hence "dropWhile (\<lambda>c. \<not> sep c) t = dropWhile (\<lambda>c. \<not> sep c) cs"
    using tc by simp
  hence "length (dropWhile (\<lambda>c. \<not> sep c) t) \<le> length cs"
    by (simp add: length_dropWhile_le)
  also have "\<dots> < length t" using tc by simp
  also have "\<dots> \<le> length s" using t by (simp add: length_dropWhile_le)
  finally show "((sep, dropWhile (\<lambda>c. \<not> sep c) t), (sep, s)) \<in> measure (\<lambda>(sep, s). length s)"
    by simp
qed

declare split_runs.simps [simp del]

definition words_of :: "string \<Rightarrow> string list" where
  "words_of s = split_runs is_js_space s"

fun join_hyphen :: "string list \<Rightarrow> string" where
  "join_hyphen [] = []"
| "join_hyphen [w] = w"
| "join_hyphen (w # v # ws) = w @ ''-'' @ join_hyphen (v # ws)"

definition spec_slug :: "string \<Rightarrow> string" where
  "spec_slug name =
     join_hyphen (words_of (js_trim
       (filter (\<lambda>c. is_word_char c \<or> c = CHR '' '') (map lower_char name))))"


section \<open>Identifiers, values and documents\<close>

text \<open>
  An \<open>ObjectId\<close> is held as the string \<open>String(id)\<close> gives: 24 lowercase hexadecimal
  digits. \<open>matches_ObjectId\<close> is the test \<^verbatim>\<open>/^[0-9a-fA-F]{24}$/\<close> of \<open>routes/posts.js\<close>.
  Casting a string to an identifier, as Mongoose does for \<open>findById\<close>, reads the digits
  without regard to case; a string of another shape raises a \<open>CastError\<close> (\<open>None\<close>), as
  with the current \<open>bson\<close> (older versions also took a 12-character string as 12 bytes).
\<close>

type_synonym ObjectId = string

definition is_hex_digit :: "char \<Rightarrow> bool" where
  "is_hex_digit c = (c \<in> set ''0123456789abcdefABCDEF'')"

definition matches_ObjectId :: "string \<Rightarrow> bool" where
  "matches_ObjectId s = (length s = 24 \<and> list_all is_hex_digit s)"

definition cast_ObjectId :: "string \<Rightarrow> ObjectId option" where
  "cast_ObjectId s = (if matches_ObjectId s then Some (toLowerCase s) else None)"

text \<open>The values a JSON request body holds, and \<open>undefined\<close> for a field that is not
  set. A number is an integer here: the routes only test a number for being zero.\<close>

datatype jsval =
    JUndefined
  | JNull
  | JBool bool
  | JNum int
  | JStr string
  | JArr "jsval list"
  | JObj "(string \<times> jsval) list"

fun truthy :: "jsval \<Rightarrow> bool" where
  "truthy JUndefined = False"
| "truthy JNull = False"
| "truthy (JBool b) = b"
| "truthy (JNum n) = (n \<noteq> 0)"
| "truthy (JStr s) = (s \<noteq> [])"
| "truthy (JArr xs) = True"
| "truthy (JObj kvs) = True"

text \<open>\<open>body[f]\<close> and \<open>f in body\<close> for a body held as a map from its keys.\<close>

type_synonym json_body = "string \<Rightarrow> jsval option"

definition body_get :: "json_body \<Rightarrow> string \<Rightarrow> jsval" where
  "body_get b f = (case b f of None \<Rightarrow> JUndefined | Some v \<Rightarrow> v)"

text \<open>
  A reference field of a document: the identifier as stored, or, after \<open>populate(path,
  'name')\<close>, the referenced document cut down to \<open>_id\<close> and \<open>name\<close>, or \<open>null\<close> when
  the referenced document does not exist.
\<close>

datatype ref = RefId ObjectId | RefDoc ObjectId string | RefNull

text \<open>
  \<open>String(v)\<close> for a reference field. An identifier prints as its 24 digits. A populated
  document prints through Mongoose's \<open>Document.prototype.toString\<close>, which is Node's
  \<open>inspect\<close> of the document's fields: a text in braces, written here on one line.
\<close>

definition inspect_doc :: "ObjectId \<Rightarrow> string \<Rightarrow> string" where
  "inspect_doc i n =
     ''{ _id: new ObjectId('' @ [CHR 0x22] @ i @ [CHR 0x22] @ ''), name: '' @
       [CHR 0x27] @ n @ [CHR 0x27] @ '' }''"

fun js_String :: "ref \<Rightarrow> string" where
  "js_String (RefId i) = i"
| "js_String (RefDoc i n) = inspect_doc i n"
| "js_String RefNull = ''null''"

text \<open>Modelled from the spec: \<open>models/User.js\<close> is not among the sources. A user has
  the fields the specification lists (identity, display name, email, password credential,
  role), which are those the routes and \<open>authenticate\<close> read. \<open>password\<close> is \<open>None\<close> on a
  document loaded with \<open>select('-password')\<close>.\<close>

record User =
  user_id :: ObjectId
  user_name :: string
  email :: string
  password :: "string option"
  role :: string

text \<open>A category document as Mongoose holds it in memory: the schema's paths, each
  \<open>None\<close> while unset, and the paths modified since the document was loaded.\<close>

record Category =
  cat_id :: ObjectId
  cat_name :: "string option"
  cat_slug :: "string option"
  cat_description :: "string option"
  cat_modified :: "string list"

record Comment =
  comment_user :: ObjectId
  comment_content :: string
  comment_createdAt :: nat

text \<open>Modelled from the spec: \<open>models/Post.js\<close> is not among the sources. A post has
  the fields the specification lists, under the names the routes use; the six fields a
  request may overwrite hold the values the routes assign (the schema's casts belong to
  \<open>save\<close>).\<close>

record Post =
  post_id :: ObjectId
  title :: jsval
  content :: jsval
  excerpt :: jsval
  featuredImage :: jsval
  tags :: jsval
  isPublished :: jsval
  slug :: string
  category :: ref
  author :: ref
  viewCount :: nat
  comments :: "Comment list"

record Db =
  users :: "User list"
  categories :: "Category list"
  posts :: "Post list"

text \<open>A response: the status and the JSON body.\<close>

datatype body =
    Message string
  | Failure string
  | Errors "string list"
  | PostJson Post
  | PostsJson "Post list"
  | CategoryJson Category

type_synonym response = "nat \<times> body"


section \<open>The category model (\<open>models/Category.js\<close>)\<close>

text \<open>
  Mongoose keeps, for each document, the paths assigned since it was loaded:
  \<open>isModified(path)\<close> reads that list. An assignment that does not change the value
  leaves the path unmodified. The schema declares \<open>trim: true\<close> for \<open>name\<close>, a setter
  that runs on every assignment to the path and on the value of the path in a query.
\<close>

definition isModified :: "string \<Rightarrow> Category \<Rightarrow> bool" where
  "isModified path this = (path \<in> set (cat_modified this))"

definition markModified :: "string \<Rightarrow> Category \<Rightarrow> Category" where
  "markModified path this =
     (if path \<in> set (cat_modified this) then this
      else this\<lparr>cat_modified := cat_modified this @ [path]\<rparr>)"

definition set_name :: "string \<Rightarrow> Category \<Rightarrow> Category" where
  "set_name v this =
     (if cat_name this = Some (js_trim v) then this
      else markModified ''name'' (this\<lparr>cat_name := Some (js_trim v)\<rparr>))"

definition set_slug :: "string \<Rightarrow> Category \<Rightarrow> Category" where
  "set_slug v this =
     (if cat_slug this = Some v then this
      else markModified ''slug'' (this\<lparr>cat_slug := Some v\<rparr>))"

definition set_description :: "string \<Rightarrow> Category \<Rightarrow> Category" where
  "set_description v this =
     (if cat_description this = Some v then this
      else markModified ''description'' (this\<lparr>cat_description := Some v\<rparr>))"

text \<open>\<open>new Category({ name, description })\<close> with a fresh identifier; an \<open>undefined\<close>
  description is not assigned.\<close>

definition new_Category :: "ObjectId \<Rightarrow> string \<Rightarrow> string option \<Rightarrow> Category" where
  "new_Category oid name description =
     (let blank = \<lparr>cat_id = oid, cat_name = None, cat_slug = None,
                    cat_description = None, cat_modified = []\<rparr>;
          named = set_name name blank
      in case description of None \<Rightarrow> named | Some d \<Rightarrow> set_description d named)"

text \<open>The hook \<open>CategorySchema.pre('save', ...)\<close>. \<open>this.name.toLowerCase()\<close> on an
  unset name is a \<open>TypeError\<close>.\<close>

datatype save_error = ValidationError | TypeError | DuplicateKey | DocumentNotFound

definition pre_save :: "Category \<Rightarrow> save_error + Category" where
  "pre_save this =
     (if \<not> isModified ''name'' this then Inr this
      else (case cat_name this of
              None \<Rightarrow> Inl TypeError
            | Some n \<Rightarrow> Inr (set_slug (slugify n) this)))"

text \<open>The schema's validators: \<open>name\<close> and \<open>slug\<close> are \<open>required\<close>, which an unset
  path and the empty string fail.\<close>

definition required :: "string option \<Rightarrow> bool" where
  "required v = (case v of None \<Rightarrow> False | Some s \<Rightarrow> s \<noteq> [])"

definition validate :: "Category \<Rightarrow> bool" where
  "validate this = (required (cat_name this) \<and> required (cat_slug this))"

text \<open>The collection with its two unique indexes (\<open>unique: true\<close> on \<open>name\<close> and on
  \<open>slug\<close>): a write that would give two documents one name or one slug is refused.\<close>

definition clashes :: "Category \<Rightarrow> Category \<Rightarrow> bool" where
  "clashes d c = (cat_id c \<noteq> cat_id d \<and> (cat_name c = cat_name d \<or> cat_slug c = cat_slug d))"

definition insertOne :: "Category list \<Rightarrow> Category \<Rightarrow> save_error + Category list" where
  "insertOne coll d =
     (if list_ex (\<lambda>c. cat_id c = cat_id d \<or> clashes d c) coll then Inl DuplicateKey
      else Inr (coll @ [d]))"

definition updateOne :: "Category list \<Rightarrow> Category \<Rightarrow> save_error + Category list" where
  "updateOne coll d =
     (if list_ex (clashes d) coll then Inl DuplicateKey
      else if \<not> list_ex (\<lambda>c. cat_id c = cat_id d) coll then Inl DocumentNotFound
      else Inr (map (\<lambda>c. if cat_id c = cat_id d then d else c) coll))"

text \<open>
  \<open>document.save()\<close>. Mongoose runs its validation as the first pre-save stage, ahead of
  the hooks a schema registers with \<open>pre('save')\<close>; then the hooks run, then the write:
  an insert for a new document, an update for a loaded one. The saved document has no
  modified paths left.
\<close>

definition Category_save ::
  "bool \<Rightarrow> Category list \<Rightarrow> Category \<Rightarrow> save_error + (Category \<times> Category list)" where
  "Category_save isNew coll this =
     (if \<not> validate this then Inl ValidationError
      else (case pre_save this of
              Inl e \<Rightarrow> Inl e
            | Inr hooked \<Rightarrow>
                (let saved = hooked\<lparr>cat_modified := []\<rparr> in
                 case (if isNew then insertOne coll saved else updateOne coll saved) of
                   Inl e \<Rightarrow> Inl e
                 | Inr coll' \<Rightarrow> Inr (saved, coll'))))"

text \<open>\<open>Category.findOne({ name })\<close>, \<open>Category.findOne({ slug })\<close> and
  \<open>Category.findById(id)\<close>, the last with its \<open>CastError\<close> caught as the routes do.\<close>

definition Category_findOne_name :: "Db \<Rightarrow> string \<Rightarrow> Category option" where
  "Category_findOne_name db name = find (\<lambda>c. cat_name c = Some (js_trim name)) (categories db)"

definition Category_findOne_slug :: "Db \<Rightarrow> string \<Rightarrow> Category option" where
  "Category_findOne_slug db s = find (\<lambda>c. cat_slug c = Some s) (categories db)"

definition Category_findById :: "Db \<Rightarrow> string \<Rightarrow> Category option" where
  "Category_findById db s =
     (case cast_ObjectId s of
        None \<Rightarrow> None
      | Some i \<Rightarrow> find (\<lambda>c. cat_id c = i) (categories db))"

section \<open>Creating a category (\<open>routes/categories.js\<close>)\<close>

text \<open>
  The handler of \<open>POST /api/categories\<close>, behind \<open>authenticate\<close>. The body's
  \<open>name\<close> and \<open>description\<close> are strings or absent. The handler is two steps on the
  store, the lookup by name and the save, so that requests can be interleaved:
  \<open>create_category_check\<close> answers at once or leaves a document to save, and
  \<open>create_category_save\<close> saves it. \<open>create_category\<close> is one request served alone.
\<close>

record CategoryBody =
  body_name :: "string option"
  body_description :: "string option"

definition notEmpty :: "string option \<Rightarrow> bool" where
  "notEmpty v = (case v of None \<Rightarrow> False | Some s \<Rightarrow> s \<noteq> [])"

definition create_category_check :: "ObjectId \<Rightarrow> Db \<Rightarrow> CategoryBody \<Rightarrow> response + Category" where
  "create_category_check oid db b =
     (case body_name b of
        None \<Rightarrow> Inl (400, Errors [''Name is required''])
      | Some name \<Rightarrow>
          if \<not> notEmpty (Some name) then Inl (400, Errors [''Name is required''])
          else (case Category_findOne_name db name of
                  Some existing \<Rightarrow> Inl (400, Message ''Category already exists'')
                | None \<Rightarrow> Inr (new_Category oid name (body_description b))))"

definition create_category_save :: "Db \<Rightarrow> Category \<Rightarrow> response \<times> Db" where
  "create_category_save db doc =
     (case Category_save True (categories db) doc of
        Inl e \<Rightarrow> ((500, Message ''Server error''), db)
      | Inr (saved, coll) \<Rightarrow> ((201, CategoryJson saved), db\<lparr>categories := coll\<rparr>))"

definition create_category :: "ObjectId \<Rightarrow> Db \<Rightarrow> CategoryBody \<Rightarrow> response \<times> Db" where
  "create_category oid db b =
     (case create_category_check oid db b of
        Inl res \<Rightarrow> (res, db)
      | Inr doc \<Rightarrow> create_category_save db doc)"


section \<open>Tokens (\<open>jsonwebtoken\<close>, as \<open>routes/auth.js\<close> and \<open>middleware/auth.js\<close> call it)\<close>

text \<open>
  The library is a dependency, not code of the repository. A token is its payload and
  its signature; the library's text encoding, its decoding and its keyed hash are the
  fields of \<open>JwtLib\<close>. \<open>sign\<close> stamps the payload with the issue time in seconds
  (\<open>floor(Date.now() / 1000)\<close>, the clock being in milliseconds) and with the expiry
  \<open>iat + expiresIn\<close>. \<open>verify\<close> refuses a missing or undecodable token and a wrong
  signature, and then a token whose expiry is not after the clock's second.
\<close>

record Payload =
  payload_id :: "string option"
  payload_iat :: nat
  payload_exp :: "nat option"

record Jwt =
  jwt_payload :: Payload
  jwt_signature :: string

record JwtLib =
  hs256 :: "string \<Rightarrow> Payload \<Rightarrow> string"
  encode :: "Jwt \<Rightarrow> string"
  decode :: "string \<Rightarrow> Jwt option"

datatype jwt_error = JsonWebTokenError string | TokenExpiredError

definition signed :: "JwtLib \<Rightarrow> string option \<Rightarrow> string \<Rightarrow> nat \<Rightarrow> nat \<Rightarrow> Jwt" where
  "signed lib uid secret expiresIn now =
     (let p = \<lparr>payload_id = uid, payload_iat = now div 1000,
                payload_exp = Some (now div 1000 + expiresIn)\<rparr>
      in \<lparr>jwt_payload = p, jwt_signature = hs256 lib secret p\<rparr>)"

definition jwt_sign :: "JwtLib \<Rightarrow> string option \<Rightarrow> string \<Rightarrow> nat \<Rightarrow> nat \<Rightarrow> string" where
  "jwt_sign lib uid secret expiresIn now = encode lib (signed lib uid secret expiresIn now)"

definition jwt_verify :: "JwtLib \<Rightarrow> string option \<Rightarrow> string \<Rightarrow> nat \<Rightarrow> jwt_error + Payload" where
  "jwt_verify lib token secret now =
     (case token of
        None \<Rightarrow> Inl (JsonWebTokenError ''jwt must be provided'')
      | Some t \<Rightarrow>
          if t = [] then Inl (JsonWebTokenError ''jwt must be provided'')
          else (case decode lib t of
                  None \<Rightarrow> Inl (JsonWebTokenError ''jwt malformed'')
                | Some j \<Rightarrow>
                    if jwt_signature j \<noteq> hs256 lib secret (jwt_payload j)
                    then Inl (JsonWebTokenError ''invalid signature'')
                    else (case payload_exp (jwt_payload j) of
                            None \<Rightarrow> Inr (jwt_payload j)
                          | Some e \<Rightarrow>
                              if e \<le> now div 1000 then Inl TokenExpiredError
                              else Inr (jwt_payload j))))"

text \<open>\<open>process.env.JWT_SECRET || 'secret'\<close>, and \<open>expiresIn: '7d'\<close> in seconds.\<close>

definition jwt_secret :: "string option \<Rightarrow> string" where
  "jwt_secret env = (case env of None \<Rightarrow> ''secret'' | Some s \<Rightarrow> if s = [] then ''secret'' else s)"

definition seven_days :: nat where
  "seven_days = 7 * 24 * 60 * 60"

text \<open>The call of the register and login routes:
  \<^verbatim>\<open>jwt.sign({ id: user._id }, process.env.JWT_SECRET || 'secret', { expiresIn: '7d' })\<close>\<close>

definition issue_token :: "JwtLib \<Rightarrow> string option \<Rightarrow> ObjectId \<Rightarrow> nat \<Rightarrow> string" where
  "issue_token lib env uid now = jwt_sign lib (Some uid) (jwt_secret env) seven_days now"

text \<open>The call of \<open>authenticate\<close>: \<^verbatim>\<open>jwt.verify(token, process.env.JWT_SECRET || 'secret')\<close>\<close>

definition verify_token :: "JwtLib \<Rightarrow> string option \<Rightarrow> string option \<Rightarrow> nat \<Rightarrow> jwt_error + Payload" where
  "verify_token lib env token now = jwt_verify lib token (jwt_secret env) now"

text \<open>The instant, in milliseconds, from which \<open>verify\<close> refuses the token issued at
  \<open>now\<close>.\<close>

definition expiry_ms :: "nat \<Rightarrow> nat" where
  "expiry_ms now = (now div 1000 + seven_days) * 1000"

section \<open>The authentication middleware (\<open>middleware/auth.js\<close>)\<close>

text \<open>\<open>a || b\<close> on two header values, \<open>None\<close> for \<open>undefined\<close>.\<close>

definition js_or :: "string option \<Rightarrow> string option \<Rightarrow> string option" where
  "js_or a b = (case a of None \<Rightarrow> b | Some s \<Rightarrow> if s = [] then b else a)"

text \<open>\<open>User.findById(id)\<close>: \<open>null\<close> for an \<open>undefined\<close> id, a \<open>CastError\<close> (\<open>Inl\<close>) for
  a string that is no identifier. \<open>select('-password')\<close> drops the credential.\<close>

definition User_findById :: "Db \<Rightarrow> string option \<Rightarrow> unit + User option" where
  "User_findById db v =
     (case v of
        None \<Rightarrow> Inr None
      | Some s \<Rightarrow>
          (case cast_ObjectId s of
             None \<Rightarrow> Inl ()
           | Some i \<Rightarrow> Inr (find (\<lambda>u. user_id u = i) (users db))))"

definition select_without_password :: "User \<Rightarrow> User" where
  "select_without_password u = u\<lparr>password := None\<rparr>"

text \<open>\<open>authenticate\<close>: \<open>Inl\<close> is the response sent, \<open>Inr\<close> the user set as \<open>req.user\<close>
  before \<open>next()\<close>.\<close>

type_synonym header_map = "string \<Rightarrow> string option"

text \<open>\<open>req.headers.authorization || req.headers.Authorization\<close> and
  \<open>authHeader.split(' ')[1]\<close>.\<close>

definition authHeader_of :: "header_map \<Rightarrow> string option" where
  "authHeader_of hdrs = js_or (hdrs ''authorization'') (hdrs ''Authorization'')"

definition token_of :: "string \<Rightarrow> string option" where
  "token_of authHeader = js_index (js_split (CHR '' '') authHeader) 1"

definition authenticate ::
  "JwtLib \<Rightarrow> string option \<Rightarrow> nat \<Rightarrow> Db \<Rightarrow> header_map \<Rightarrow> response + User" where
  "authenticate lib env now db hdrs =
     (case authHeader_of hdrs of
        None \<Rightarrow> Inl (401, Failure ''No token provided'')
      | Some authHeader \<Rightarrow>
          if authHeader = [] \<or> \<not> startsWith ''Bearer '' authHeader
          then Inl (401, Failure ''No token provided'')
          else (case verify_token lib env (token_of authHeader) now of
                  Inl err \<Rightarrow> Inl (401, Failure ''Token verification failed'')
                | Inr decoded \<Rightarrow>
                    (case User_findById db (payload_id decoded) of
                       Inl err \<Rightarrow> Inl (401, Failure ''Token verification failed'')
                     | Inr None \<Rightarrow> Inl (401, Failure ''Invalid token'')
                     | Inr (Some user) \<Rightarrow> Inr (select_without_password user))))"

section \<open>Resolving a post (\<open>findPostByIdOrSlug\<close> in \<open>routes/posts.js\<close>)\<close>

definition Post_findById :: "Db \<Rightarrow> string \<Rightarrow> Post option" where
  "Post_findById db s =
     (case cast_ObjectId s of
        None \<Rightarrow> None
      | Some i \<Rightarrow> find (\<lambda>p. post_id p = i) (posts db))"

definition Post_findOne_slug :: "Db \<Rightarrow> string \<Rightarrow> Post option" where
  "Post_findOne_slug db s = find (\<lambda>p. slug p = s) (posts db)"

text \<open>\<open>.populate('author', 'name').populate('category', 'name')\<close>: each reference is
  replaced by the referenced document's \<open>_id\<close> and \<open>name\<close>, or by \<open>null\<close>.\<close>

definition populate_ref :: "(ObjectId \<Rightarrow> string option) \<Rightarrow> ref \<Rightarrow> ref" where
  "populate_ref name_of r =
     (case r of
        RefId i \<Rightarrow> (case name_of i of None \<Rightarrow> RefNull | Some n \<Rightarrow> RefDoc i n)
      | RefDoc i n \<Rightarrow> RefDoc i n
      | RefNull \<Rightarrow> RefNull)"

definition user_name_of :: "Db \<Rightarrow> ObjectId \<Rightarrow> string option" where
  "user_name_of db i = map_option user_name (find (\<lambda>u. user_id u = i) (users db))"

definition category_name_of :: "Db \<Rightarrow> ObjectId \<Rightarrow> string option" where
  "category_name_of db i =
     map_option (\<lambda>c. case cat_name c of None \<Rightarrow> [] | Some n \<Rightarrow> n)
       (find (\<lambda>c. cat_id c = i) (categories db))"

definition populate_author :: "Db \<Rightarrow> Post \<Rightarrow> Post" where
  "populate_author db p = p\<lparr>author := populate_ref (user_name_of db) (author p)\<rparr>"

definition populate_category :: "Db \<Rightarrow> Post \<Rightarrow> Post" where
  "populate_category db p = p\<lparr>category := populate_ref (category_name_of db) (category p)\<rparr>"

definition findPostByIdOrSlug :: "Db \<Rightarrow> string \<Rightarrow> Post option" where
  "findPostByIdOrSlug db idOrSlug =
     (if idOrSlug = [] then None
      else (case (if matches_ObjectId idOrSlug
                  then map_option (populate_category db \<circ> populate_author db)
                         (Post_findById db idOrSlug)
                  else None) of
              Some p \<Rightarrow> Some p
            | None \<Rightarrow>
                map_option (populate_category db \<circ> populate_author db)
                  (Post_findOne_slug db idOrSlug)))"

section \<open>The post routes (\<open>routes/posts.js\<close>)\<close>

text \<open>
  \<open>GET /:id\<close>. \<open>models/Post.js\<close> is not among the sources, so \<open>incrementViewCount\<close> is
  a parameter: from the document, the document as the call leaves it in memory and the
  write that the returned promise stands for, \<open>None\<close> when the promise rejects. The
  handler calls it, hangs an empty \<open>catch\<close> on the promise and answers with the document.
  The result is the response, the store once the promise has settled, and the calls made.
\<close>

datatype call = IncrementViewCount ObjectId

type_synonym increment = "Post \<Rightarrow> Post \<times> (Db \<Rightarrow> Db option)"

definition get_post :: "increment \<Rightarrow> Db \<Rightarrow> string \<Rightarrow> response \<times> Db \<times> call list" where
  "get_post incrementViewCount db idOrSlug =
     (case findPostByIdOrSlug db idOrSlug of
        None \<Rightarrow> ((404, Message ''Post not found''), db, [])
      | Some post \<Rightarrow>
          (let (post', write) = incrementViewCount post in
           ((200, PostJson post'),
            (case write db of None \<Rightarrow> db | Some db' \<Rightarrow> db'),
            [IncrementViewCount (post_id post)])))"

text \<open>The test both \<open>PUT /:id\<close> and \<open>DELETE /:id\<close> make before they write:
  \<^verbatim>\<open>String(post.author) !== String(req.user._id) && req.user.role !== 'admin'\<close>\<close>

definition not_authorized :: "User \<Rightarrow> Post \<Rightarrow> bool" where
  "not_authorized user post =
     (js_String (author post) \<noteq> user_id user \<and> role user \<noteq> ''admin'')"

text \<open>\<open>post[f] = req.body[f]\<close> for the names of the list \<open>updatable\<close>.\<close>

definition updatable :: "string list" where
  "updatable = [''title'', ''content'', ''excerpt'', ''featuredImage'', ''tags'', ''isPublished'']"

definition assign :: "string \<Rightarrow> jsval \<Rightarrow> Post \<Rightarrow> Post" where
  "assign f v post =
     (if f = ''title'' then post\<lparr>title := v\<rparr>
      else if f = ''content'' then post\<lparr>content := v\<rparr>
      else if f = ''excerpt'' then post\<lparr>excerpt := v\<rparr>
      else if f = ''featuredImage'' then post\<lparr>featuredImage := v\<rparr>
      else if f = ''tags'' then post\<lparr>tags := v\<rparr>
      else if f = ''isPublished'' then post\<lparr>isPublished := v\<rparr>
      else post)"

definition overwrite :: "json_body \<Rightarrow> Post \<Rightarrow> Post" where
  "overwrite b post =
     foldl (\<lambda>p f. case b f of None \<Rightarrow> p | Some v \<Rightarrow> assign f v p) post updatable"

text \<open>
  The route hands \<open>req.body.category\<close> to \<open>Category.findById\<close> and to
  \<open>Category.findOne({ slug: ... })\<close> as it is, and catches each lookup's failure. For a
  string the lookups are those of the category model above. Any other value Mongoose
  casts or interprets before it queries: a number or a boolean becomes a text, an array
  or an object can act as a query operator (\<open>{ "$ne": null }\<close> matches the first
  document). What the two lookups answer for a value that is not a string is the
  library's and so a parameter, the record \<open>Mongoose\<close>.
\<close>

record Mongoose =
  findById_other :: "Db \<Rightarrow> jsval \<Rightarrow> Category option"
  findOne_slug_other :: "Db \<Rightarrow> jsval \<Rightarrow> Category option"

definition Category_findById_value :: "Mongoose \<Rightarrow> Db \<Rightarrow> jsval \<Rightarrow> Category option" where
  "Category_findById_value m db v =
     (case v of JStr s \<Rightarrow> Category_findById db s | _ \<Rightarrow> findById_other m db v)"

definition Category_findOne_slug_value :: "Mongoose \<Rightarrow> Db \<Rightarrow> jsval \<Rightarrow> Category option" where
  "Category_findOne_slug_value m db v =
     (case v of JStr s \<Rightarrow> Category_findOne_slug db s | _ \<Rightarrow> findOne_slug_other m db v)"

text \<open>The category of the body, looked up by identifier and then by slug.\<close>

definition resolve_category :: "Mongoose \<Rightarrow> Db \<Rightarrow> jsval \<Rightarrow> Category option" where
  "resolve_category m db v =
     (case Category_findById_value m db v of
        Some cat \<Rightarrow> Some cat
      | None \<Rightarrow> Category_findOne_slug_value m db v)"

definition reassign_category :: "Mongoose \<Rightarrow> Db \<Rightarrow> json_body \<Rightarrow> Post \<Rightarrow> Post" where
  "reassign_category m db b post =
     (if truthy (body_get b ''category'')
      then (case resolve_category m db (body_get b ''category'') of
              None \<Rightarrow> post
            | Some cat \<Rightarrow> post\<lparr>category := RefId (cat_id cat)\<rparr>)
      else post)"

text \<open>\<open>PUT /:id\<close> behind \<open>authenticate\<close>. What \<open>post.save()\<close> does is \<open>models/Post.js\<close> and so a
  parameter: \<open>None\<close> when it throws, else the saved document and the store.\<close>

type_synonym post_save = "Db \<Rightarrow> Post \<Rightarrow> (Post \<times> Db) option"

definition update_post ::
  "post_save \<Rightarrow> Mongoose \<Rightarrow> Db \<Rightarrow> User \<Rightarrow> string \<Rightarrow> json_body \<Rightarrow> response \<times> Db" where
  "update_post save m db user idOrSlug b =
     (case findPostByIdOrSlug db idOrSlug of
        None \<Rightarrow> ((404, Message ''Post not found''), db)
      | Some post \<Rightarrow>
          if not_authorized user post then ((403, Message ''Not authorized''), db)
          else (case save db (reassign_category m db b (overwrite b post)) of
                  None \<Rightarrow> ((500, Message ''Server error''), db)
                | Some (saved, db') \<Rightarrow> ((200, PostJson saved), db')))"

text \<open>\<open>DELETE /:id\<close> behind \<open>authenticate\<close>, \<open>post.remove()\<close> a parameter likewise.\<close>

type_synonym post_remove = "Db \<Rightarrow> Post \<Rightarrow> Db option"

definition delete_post :: "post_remove \<Rightarrow> Db \<Rightarrow> User \<Rightarrow> string \<Rightarrow> response \<times> Db" where
  "delete_post remove db user idOrSlug =
     (case findPostByIdOrSlug db idOrSlug of
        None \<Rightarrow> ((404, Message ''Post not found''), db)
      | Some post \<Rightarrow>
          if not_authorized user post then ((403, Message ''Not authorized''), db)
          else (case remove db post of
                  None \<Rightarrow> ((500, Message ''Server error''), db)
                | Some db' \<Rightarrow> ((200, Message ''Post deleted''), db')))"

text \<open>\<open>GET /search\<close>: \<open>Post.find({ $text: { $search: q } }).limit(20).populate('author',
  'name')\<close> with \<open>q = req.query.q || \<close>\<open>''\<close>, the text index's matching a parameter.\<close>

definition search_posts :: "(string \<Rightarrow> Post \<Rightarrow> bool) \<Rightarrow> Db \<Rightarrow> string option \<Rightarrow> response" where
  "search_posts text_match db q =
     (let q' = (case q of None \<Rightarrow> [] | Some t \<Rightarrow> t) in
      (200, PostsJson (map (populate_author db) (take 20 (filter (text_match q') (posts db))))))"

section \<open>The router of \<open>routes/posts.js\<close>\<close>

text \<open>
  Express tries the routes in the order the file registers them and runs the first
  whose verb and path match; none of the handlers passes the request on. A path is the
  list of its segments; \<open>:id\<close> matches one non-empty segment, a literal matches itself
  without regard to case.
\<close>

datatype verb = GET | POST | PUT | DELETE

datatype segment = Lit string | Param

datatype handler =
  ListPosts | GetPost | CreatePost | UpdatePost | DeletePost | AddComment | SearchPosts

record Route =
  route_verb :: verb
  route_path :: "segment list"
  route_protected :: bool
  route_handler :: handler

definition posts_routes :: "Route list" where
  "posts_routes =
     [\<lparr>route_verb = GET, route_path = [], route_protected = False, route_handler = ListPosts\<rparr>,
      \<lparr>route_verb = GET, route_path = [Param], route_protected = False, route_handler = GetPost\<rparr>,
      \<lparr>route_verb = POST, route_path = [], route_protected = True, route_handler = CreatePost\<rparr>,
      \<lparr>route_verb = PUT, route_path = [Param], route_protected = True, route_handler = UpdatePost\<rparr>,
      \<lparr>route_verb = DELETE, route_path = [Param], route_protected = True, route_handler = DeletePost\<rparr>,
      \<lparr>route_verb = POST, route_path = [Param, Lit ''comments''], route_protected = True,
       route_handler = AddComment\<rparr>,
      \<lparr>route_verb = GET, route_path = [Lit ''search''], route_protected = False,
       route_handler = SearchPosts\<rparr>]"

fun match_path :: "segment list \<Rightarrow> string list \<Rightarrow> string list option" where
  "match_path [] [] = Some []"
| "match_path (Lit l # ps) (s # ss) =
     (if toLowerCase s = toLowerCase l then match_path ps ss else None)"
| "match_path (Param # ps) (s # ss) =
     (if s = [] then None else map_option ((#) s) (match_path ps ss))"
| "match_path _ _ = None"

fun first_match :: "verb \<Rightarrow> string list \<Rightarrow> Route list \<Rightarrow> (Route \<times> string list) option" where
  "first_match v path [] = None"
| "first_match v path (r # rs) =
     (if route_verb r = v
      then (case match_path (route_path r) path of
              Some params \<Rightarrow> Some (r, params)
            | None \<Rightarrow> first_match v path rs)
      else first_match v path rs)"

definition dispatch :: "verb \<Rightarrow> string list \<Rightarrow> (handler \<times> bool \<times> string list) option" where
  "dispatch v path =
     map_option (\<lambda>(r, params). (route_handler r, route_protected r, params))
       (first_match v path posts_routes)"


section \<open>Derived notions and example data\<close>

text \<open>The conditions under which \<open>authenticate\<close> lets a request through as the stored user
  \<open>stored\<close>: an authorization header that starts with \<open>Bearer \<close>, a token in it that
  verifies, and a stored user under the identity the token carries.\<close>

definition admitted :: "JwtLib \<Rightarrow> string option \<Rightarrow> nat \<Rightarrow> Db \<Rightarrow> header_map \<Rightarrow> User \<Rightarrow> bool" where
  "admitted lib env now db hdrs stored =
     (case authHeader_of hdrs of
        None \<Rightarrow> False
      | Some h \<Rightarrow>
          startsWith ''Bearer '' h \<and>
          (case verify_token lib env (token_of h) now of
             Inl e \<Rightarrow> False
           | Inr decoded \<Rightarrow> User_findById db (payload_id decoded) = Inr (Some stored)))"


text \<open>What \<open>findPostByIdOrSlug\<close> makes of a stored post it finds.\<close>

definition populated :: "Db \<Rightarrow> Post \<Rightarrow> Post" where
  "populated db p = populate_category db (populate_author db p)"


text \<open>A small store: two users, one of them an administrator, one category and two
  posts of the first user. The second post's title, and so its slug, is the identifier
  of the first post. And the same users with no category and no post yet.\<close>

definition tech :: Category where
  "tech = \<lparr>cat_id = ''64b000000000000000000001'', cat_name = Some ''Tech'',
           cat_slug = Some ''tech'', cat_description = None, cat_modified = []\<rparr>"

definition alice :: User where
  "alice = \<lparr>user_id = ''65a000000000000000000001'', user_name = ''Alice'',
            email = ''alice@example.com'', password = Some ''hash-of-alice'',
            role = ''member''\<rparr>"

definition root :: User where
  "root = \<lparr>user_id = ''65a000000000000000000002'', user_name = ''Root'',
           email = ''root@example.com'', password = Some ''hash-of-root'',
           role = ''admin''\<rparr>"

definition post_hello :: Post where
  "post_hello =
     \<lparr>post_id = ''65b000000000000000000001'', title = JStr ''Hello, World!  Foo'',
      content = JStr ''First post'', excerpt = JUndefined, featuredImage = JUndefined,
      tags = JArr [JStr ''intro''], isPublished = JBool True, slug = ''hello-world-foo'',
      category = RefId ''64b000000000000000000001'',
      author = RefId ''65a000000000000000000001'', viewCount = 0, comments = []\<rparr>"

definition post_shadow :: Post where
  "post_shadow =
     \<lparr>post_id = ''65b000000000000000000002'', title = JStr ''65b000000000000000000001'',
      content = JStr ''Second post'', excerpt = JUndefined, featuredImage = JUndefined,
      tags = JArr [], isPublished = JBool True, slug = ''65b000000000000000000001'',
      category = RefId ''64b000000000000000000001'',
      author = RefId ''65a000000000000000000001'', viewCount = 0, comments = []\<rparr>"

definition db_fresh :: Db where
  "db_fresh = \<lparr>users = [alice, root], categories = [], posts = []\<rparr>"

definition db_blog :: Db where
  "db_blog = \<lparr>users = [alice, root], categories = [tech], posts = [post_hello, post_shadow]\<rparr>"

text \<open>An \<open>incrementViewCount\<close> that counts in memory and whose write fails, and a
  \<open>save\<close> that stores nothing and hands the document back.\<close>


definition failing_increment :: increment where
  "failing_increment p = (p\<lparr>viewCount := viewCount p + 1\<rparr>, \<lambda>d. None)"

text \<open>An \<open>incrementViewCount\<close> that counts in memory and whose write succeeds: it adds
  one to the stored counter of the post.\<close>

definition counting_increment :: increment where
  "counting_increment p =
     (p\<lparr>viewCount := viewCount p + 1\<rparr>,
      \<lambda>d. Some (d\<lparr>posts := map (\<lambda>q. if post_id q = post_id p
                                        then q\<lparr>viewCount := viewCount q + 1\<rparr> else q)
                                 (posts d)\<rparr>))"




text \<open>A stand-in for the token library on one token: the text \<open>header.payload.signature\<close>
  decodes to the token \<open>alice\<close> is issued at the instant \<open>1000000\<close>.\<close>

definition demo_lib :: JwtLib where
  "demo_lib =
     \<lparr>hs256 = (\<lambda>key p. key),
      encode = (\<lambda>j. ''header.payload.signature''),
      decode = (\<lambda>t. if t = ''header.payload.signature''
                     then Some \<lparr>jwt_payload = \<lparr>payload_id = Some ''65a000000000000000000001'',
                                                payload_iat = 1000,
                                                payload_exp = Some 605800\<rparr>,
                                jwt_signature = ''secret''\<rparr>
                     else None)\<rparr>"

text \<open>A token library for the examples. A token is the text
  \<open>id.iat.exp.signature\<close>: the identifier after the letter \<open>i\<close> (or \<open>u\<close> alone when
  there is none) and the signature with two letters \<open>a\<close> to \<open>p\<close> for each character,
  the issue time in decimal, the expiry in decimal after the letter \<open>e\<close> (or \<open>n\<close> alone).
  Decoding reads the four fields and accepts the text when encoding what it read gives
  the text back. The keyed hash is the key followed by the text of the payload.\<close>

definition digit_char :: "nat \<Rightarrow> char" where
  "digit_char d = char_of (48 + d)"

definition digit_val :: "char \<Rightarrow> nat" where
  "digit_val c = of_char c - 48"

function decimal :: "nat \<Rightarrow> string" where
  "decimal n = (if n < 10 then [digit_char n] else decimal (n div 10) @ [digit_char (n mod 10)])"
  by pat_completeness auto
termination by (relation "measure id") auto

declare decimal.simps [simp del]

definition undecimal :: "string \<Rightarrow> nat" where
  "undecimal s = foldl (\<lambda>a c. 10 * a + digit_val c) 0 s"

definition nibble_char :: "nat \<Rightarrow> char" where
  "nibble_char d = char_of (97 + d)"

definition nibble_val :: "char \<Rightarrow> nat" where
  "nibble_val c = of_char c - 97"

definition hex_of :: "string \<Rightarrow> string" where
  "hex_of s = concat (map (\<lambda>c. [nibble_char (of_char c div 16), nibble_char (of_char c mod 16)]) s)"

fun unhex :: "string \<Rightarrow> string" where
  "unhex (a # b # r) = char_of (16 * nibble_val a + nibble_val b) # unhex r"
| "unhex r = []"

definition id_text :: "string option \<Rightarrow> string" where
  "id_text v = (case v of None \<Rightarrow> ''u'' | Some s \<Rightarrow> CHR ''i'' # hex_of s)"

definition un_id :: "string \<Rightarrow> string option" where
  "un_id t = (case t of [] \<Rightarrow> None | x # r \<Rightarrow> if x = CHR ''i'' then Some (unhex r) else None)"

definition exp_text :: "nat option \<Rightarrow> string" where
  "exp_text v = (case v of None \<Rightarrow> ''n'' | Some e \<Rightarrow> CHR ''e'' # decimal e)"

definition un_exp :: "string \<Rightarrow> nat option" where
  "un_exp t = (case t of [] \<Rightarrow> None | x # r \<Rightarrow> if x = CHR ''e'' then Some (undecimal r) else None)"

definition payload_text :: "Payload \<Rightarrow> string" where
  "payload_text p =
     id_text (payload_id p) @ ''.'' @ decimal (payload_iat p) @ ''.'' @ exp_text (payload_exp p)"

definition codec_encode :: "Jwt \<Rightarrow> string" where
  "codec_encode j = payload_text (jwt_payload j) @ ''.'' @ hex_of (jwt_signature j)"

definition codec_parse :: "string \<Rightarrow> Jwt option" where
  "codec_parse t =
     (case js_split (CHR ''.'') t of
        [a, b, c, d] \<Rightarrow>
          Some \<lparr>jwt_payload = \<lparr>payload_id = un_id a, payload_iat = undecimal b,
                                payload_exp = un_exp c\<rparr>,
                 jwt_signature = unhex d\<rparr>
      | _ \<Rightarrow> None)"

definition codec_decode :: "string \<Rightarrow> Jwt option" where
  "codec_decode t =
     (case codec_parse t of
        None \<Rightarrow> None
      | Some j \<Rightarrow> if codec_encode j = t then Some j else None)"

definition codec_hs256 :: "string \<Rightarrow> Payload \<Rightarrow> string" where
  "codec_hs256 key p = key @ ''/'' @ payload_text p"

definition codec_lib :: JwtLib where
  "codec_lib = \<lparr>hs256 = codec_hs256, encode = codec_encode, decode = codec_decode\<rparr>"

section \<open>Slug derivation: the code against the specification's wording\<close>

lemma filter_dropWhile_same: "filter (\<lambda>c. \<not> P c) (dropWhile P cs) = filter (\<lambda>c. \<not> P c) cs"
  by (induction cs) auto

lemma replace_runs_empty: "replace_runs cls [] s = filter (\<lambda>c. \<not> cls c) s"
  by (induction cls "[] :: string" s rule: replace_runs.induct) (auto simp: filter_dropWhile_same)

lemma replace_runs_word: "\<forall>c\<in>set w. \<not> cls c \<Longrightarrow> replace_runs cls rep (w @ r) = w @ replace_runs cls rep r"
  by (induction w) auto

lemma split_runs_nil: "dropWhile sep s = [] \<Longrightarrow> split_runs sep s = []"
  by (subst split_runs.simps) (simp add: Let_def)

lemma split_runs_cons:
  "dropWhile sep s \<noteq> [] \<Longrightarrow>
   split_runs sep s =
     takeWhile (\<lambda>c. \<not> sep c) (dropWhile sep s) #
     split_runs sep (dropWhile (\<lambda>c. \<not> sep c) (dropWhile sep s))"
  by (subst split_runs.simps) (simp add: Let_def)

lemma last_dropWhile_ne: "dropWhile P s \<noteq> [] \<Longrightarrow> last (dropWhile P s) = last s"
  by (induction s) (auto split: if_splits)

lemma dropWhile_ne_last: "s \<noteq> [] \<Longrightarrow> \<not> P (last s) \<Longrightarrow> dropWhile P s \<noteq> []"
  by (metis dropWhile_eq_Nil_conv last_in_set)

lemma split_join:
  "s = [] \<or> \<not> sep (last s) \<Longrightarrow>
   replace_runs sep ''-'' (dropWhile sep s) = join_hyphen (split_runs sep s)"
proof (induction sep s rule: split_runs.induct)
  case (1 sep s)
  define t where "t = dropWhile sep s"
  show ?case
  proof (cases "t = []")
    case True
    hence "split_runs sep s = []" using t_def by (simp add: split_runs_nil)
    moreover have "replace_runs sep ''-'' (dropWhile sep s) = []"
      using True t_def by (metis replace_runs.simps(1))
    ultimately show ?thesis by simp
  next
    case False
    define w where "w = takeWhile (\<lambda>c. \<not> sep c) t"
    define r where "r = dropWhile (\<lambda>c. \<not> sep c) t"
    have twr: "t = w @ r" by (simp add: w_def r_def)
    have wns: "\<forall>c\<in>set w. \<not> sep c" unfolding w_def by (auto dest: set_takeWhileD)
    have lastt: "\<not> sep (last t)"
      using False 1(2) t_def last_dropWhile_ne[of sep s] by auto
    have sr: "split_runs sep s = w # split_runs sep r"
      using False split_runs_cons[of sep s] by (simp add: t_def w_def r_def)
    have rr: "replace_runs sep ''-'' t = w @ replace_runs sep ''-'' r"
      using twr wns replace_runs_word by metis
    show ?thesis
    proof (cases r)
      case Nil
      then show ?thesis using sr rr t_def by (simp add: split_runs_nil)
    next
      case (Cons c cs)
      have sc: "sep c" using Cons r_def by (metis hd_dropWhile list.sel(1) list.distinct(1))
      have lr: "\<not> sep (last r)" using lastt twr Cons by simp
      have ih: "replace_runs sep ''-'' (dropWhile sep r) = join_hyphen (split_runs sep r)"
        using 1(1)[OF t_def False] lr r_def by simp
      have ne: "dropWhile sep r \<noteq> []"
        using lr Cons dropWhile_ne_last[of r sep] by simp
      hence "split_runs sep r \<noteq> []" by (simp add: split_runs_cons)
      then obtain v vs where vv: "split_runs sep r = v # vs" by (cases "split_runs sep r") auto
      have "replace_runs sep ''-'' r = ''-'' @ replace_runs sep ''-'' (dropWhile sep r)"
        using Cons sc by simp
      then show ?thesis using rr ih sr vv t_def by simp
    qed
  qed
qed


lemma split_runs_cong:
  "\<forall>c\<in>set s. P c = Q c \<Longrightarrow> split_runs P s = split_runs Q s"
proof (induction P s rule: split_runs.induct)
  case (1 P s)
  define t where "t = dropWhile P s"
  have tq: "t = dropWhile Q s" unfolding t_def using 1(2) by (intro dropWhile_cong) auto
  have sub: "set t \<subseteq> set s" unfolding t_def by (auto dest: set_dropWhileD)
  have tk: "takeWhile (\<lambda>c. \<not> P c) t = takeWhile (\<lambda>c. \<not> Q c) t"
    using 1(2) sub by (intro takeWhile_cong) auto
  have dr: "dropWhile (\<lambda>c. \<not> P c) t = dropWhile (\<lambda>c. \<not> Q c) t"
    using 1(2) sub by (intro dropWhile_cong) auto
  show ?case
  proof (cases "t = []")
    case True
    then show ?thesis using t_def tq by (simp add: split_runs_nil)
  next
    case False
    have rest: "\<forall>c\<in>set (dropWhile (\<lambda>c. \<not> P c) t). P c = Q c"
      using 1(2) sub by (auto dest: set_dropWhileD)
    have "split_runs P (dropWhile (\<lambda>c. \<not> P c) t) = split_runs Q (dropWhile (\<lambda>c. \<not> P c) t)"
      by (rule 1(1)[OF t_def False rest])
    moreover have "split_runs P s = takeWhile (\<lambda>c. \<not> P c) t # split_runs P (dropWhile (\<lambda>c. \<not> P c) t)"
      using False split_runs_cons[of P s] by (simp add: t_def)
    moreover have "split_runs Q s = takeWhile (\<lambda>c. \<not> Q c) t # split_runs Q (dropWhile (\<lambda>c. \<not> Q c) t)"
      using False split_runs_cons[of Q s] by (simp add: tq)
    ultimately show ?thesis using tk dr by simp
  qed
qed

lemma set_js_trim: "set (js_trim s) \<subseteq> set s"
proof
  fix c assume "c \<in> set (js_trim s)"
  hence "c \<in> set (rev (dropWhile is_js_space (rev s)))"
    unfolding js_trim_def by (rule set_dropWhileD)
  hence "c \<in> set (dropWhile is_js_space (rev s))" by simp
  hence "c \<in> set (rev s)" by (rule set_dropWhileD)
  thus "c \<in> set s" by simp
qed

lemma js_trim_last: "js_trim s = [] \<or> \<not> is_js_space (last (js_trim s))"
proof (cases "js_trim s = []")
  case True
  then show ?thesis by simp
next
  case False
  define y where "y = dropWhile is_js_space (rev s)"
  have js: "js_trim s = dropWhile is_js_space (rev y)" by (simp add: js_trim_def y_def)
  hence yne: "y \<noteq> []" using False by auto
  have "last (js_trim s) = last (rev y)" using False js last_dropWhile_ne by metis
  also have "\<dots> = hd y" using yne by (simp add: last_rev)
  finally show ?thesis using yne y_def hd_dropWhile by metis
qed

lemma js_trim_head: "dropWhile is_js_space (js_trim s) = js_trim s"
  by (simp add: js_trim_def)

lemma blank_code: "(c = CHR '' '') = (of_char c = (32::nat))"
proof -
  have "of_char (CHR '' '') = (32::nat)" by simp
  thus ?thesis by (metis of_char_eq_iff)
qed

lemma kept_space: "is_word_char c \<or> c = CHR '' '' \<Longrightarrow> is_js_space c = is_blank c"
  unfolding is_blank_def blank_code is_word_char_def is_js_space_def Let_def by arith

text \<open>
  Claim C7. For every name, the slug the hook derives is the one the specification
  describes: the name in lower case, without any character that is neither a word
  character nor a space, trimmed, with a single hyphen for each run of whitespace left
  between the words; and the title \<open>Hello, World!  Foo\<close> gives \<open>hello-world-foo\<close>.
\<close>

theorem slugify_refines_spec:
  "slugify name = spec_slug name \<and> slugify ''Hello, World!  Foo'' = ''hello-world-foo''"
proof
  define x where "x = filter (\<lambda>c. is_word_char c \<or> c = CHR '' '') (map lower_char name)"
  define u where "u = js_trim x"
  have strip: "replace_runs not_word_or_space [] (toLowerCase name) = x"
    by (simp add: replace_runs_empty x_def toLowerCase_def not_word_or_space_def)
  have kept: "\<forall>c\<in>set u. is_js_space c = is_blank c"
    using set_js_trim[of x] kept_space unfolding u_def x_def by auto
  have hd_u: "dropWhile is_blank u = u"
  proof -
    have "dropWhile is_blank u = dropWhile is_js_space u"
      using kept by (intro dropWhile_cong) auto
    thus ?thesis by (simp add: u_def js_trim_head)
  qed
  have last_u: "u = [] \<or> \<not> is_blank (last u)"
    using js_trim_last[of x] kept unfolding u_def by (cases "js_trim x = []") auto
  have "slugify name = replace_runs is_blank ''-'' (dropWhile is_blank u)"
    by (simp add: slugify_def strip u_def[symmetric] hd_u)
  also have "\<dots> = join_hyphen (split_runs is_blank u)"
    using last_u by (rule split_join)
  also have "split_runs is_blank u = words_of u"
    unfolding words_of_def using kept by (intro split_runs_cong) auto
  finally show "slugify name = spec_slug name"
    by (simp add: spec_slug_def u_def x_def)
next
  show "slugify ''Hello, World!  Foo'' = ''hello-world-foo''" by code_simp
qed



section \<open>The pre-save hook\<close>

lemma new_Category_modified: "isModified ''name'' (new_Category oid name descr)"
  by (auto simp: new_Category_def set_name_def set_description_def markModified_def isModified_def Let_def
      split: option.splits)

lemma new_Category_name: "cat_name (new_Category oid name descr) = Some (js_trim name)"
  by (auto simp: new_Category_def set_name_def set_description_def markModified_def Let_def
      split: option.splits)

lemma pre_save_unmodified: "\<not> isModified ''name'' this \<Longrightarrow> pre_save this = Inr this"
  by (simp add: pre_save_def)

lemma set_description_name:
  "cat_name (set_description d c) = cat_name c \<and> cat_slug (set_description d c) = cat_slug c \<and>
   isModified ''name'' (set_description d c) = isModified ''name'' c"
  by (simp add: set_description_def markModified_def isModified_def)

lemma set_name_same: "cat_name c = Some (js_trim v) \<Longrightarrow> set_name v c = c"
  by (simp add: set_name_def)

lemma updateOne_member:
  "updateOne coll d = Inr coll' \<Longrightarrow> d \<in> set coll'"
  by (auto simp: updateOne_def list_ex_iff split: if_splits)

text \<open>
  Claim C8. The hook leaves a document whose name is unmodified as it is; it derives the
  slug from the name when the name is modified, which it is on a document just
  constructed; and saving a loaded document again, its name assigned the value it
  already has and its description changed, stores the document with the slug it had.
\<close>

theorem slug_derived_only_on_name_change:
  "(\<not> isModified ''name'' this \<longrightarrow> pre_save this = Inr this) \<and>
   (isModified ''name'' this \<longrightarrow> cat_name this = Some n \<longrightarrow>
      pre_save this = Inr (set_slug (slugify n) this)) \<and>
   pre_save (new_Category oid name descr) =
      Inr (set_slug (slugify (js_trim name)) (new_Category oid name descr)) \<and>
   (cat_modified c = [] \<longrightarrow> cat_name c = Some (js_trim v) \<longrightarrow>
      Category_save False coll (set_description d (set_name v c)) = Inr (saved, coll') \<longrightarrow>
      cat_slug saved = cat_slug c \<and> saved \<in> set coll')"
proof (intro conjI impI)
  assume "\<not> isModified ''name'' this"
  thus "pre_save this = Inr this" by (rule pre_save_unmodified)
next
  assume "isModified ''name'' this" "cat_name this = Some n"
  thus "pre_save this = Inr (set_slug (slugify n) this)" by (simp add: pre_save_def)
next
  show "pre_save (new_Category oid name descr) =
      Inr (set_slug (slugify (js_trim name)) (new_Category oid name descr))"
    using new_Category_modified[of oid name descr] new_Category_name[of oid name descr]
    by (simp add: pre_save_def)
next
  assume loaded: "cat_modified c = []" and same: "cat_name c = Some (js_trim v)"
    and sv: "Category_save False coll (set_description d (set_name v c)) = Inr (saved, coll')"
  let ?doc = "set_description d c"
  have doc: "set_description d (set_name v c) = ?doc" using same by (simp add: set_name_same)
  have unmod: "\<not> isModified ''name'' ?doc"
    using loaded set_description_name[of d c] by (simp add: isModified_def)
  hence hook: "pre_save ?doc = Inr ?doc" by (rule pre_save_unmodified)
  from sv doc hook have saved: "saved = ?doc\<lparr>cat_modified := []\<rparr>"
    and upd: "updateOne coll (?doc\<lparr>cat_modified := []\<rparr>) = Inr coll'"
    by (auto simp: Category_save_def Let_def split: if_splits sum.splits)
  show "cat_slug saved = cat_slug c" using saved set_description_name[of d c] by simp
  show "saved \<in> set coll'" using upd saved updateOne_member by blast
qed

theorem slug_derived_only_on_name_change_witness:
  "cat_modified tech = [] \<and> cat_name tech = Some (js_trim ''Tech '') \<and>
   Category_save False [tech] (set_description ''about'' (set_name ''Tech '' tech)) =
     Inr (tech\<lparr>cat_description := Some ''about''\<rparr>, [tech\<lparr>cat_description := Some ''about''\<rparr>]) \<and>
   cat_slug (tech\<lparr>cat_description := Some ''about''\<rparr>) = cat_slug tech \<and>
   \<not> isModified ''name'' tech \<and> pre_save tech = Inr tech \<and>
   isModified ''name'' (set_name ''Tech News'' tech) \<and>
   cat_slug (projr (pre_save (set_name ''Tech News'' tech))) = Some ''tech-news''"
proof -
  have a: "cat_modified tech = []" by (simp add: tech_def)
  have b: "cat_name tech = Some (js_trim ''Tech '')" by code_simp
  have c: "Category_save False [tech] (set_description ''about'' (set_name ''Tech '' tech)) =
     Inr (tech\<lparr>cat_description := Some ''about''\<rparr>, [tech\<lparr>cat_description := Some ''about''\<rparr>])"
    by code_simp
  have d: "\<not> isModified ''name'' tech" by (simp add: isModified_def tech_def)
  have e: "isModified ''name'' (set_name ''Tech News'' tech)" by code_simp
  have f: "cat_name (set_name ''Tech News'' tech) = Some ''Tech News''" by code_simp
  have g: "cat_slug (set_slug (slugify ''Tech News'') (set_name ''Tech News'' tech)) = Some ''tech-news''"
    by code_simp
  note t1 = slug_derived_only_on_name_change[of tech "''Tech News''" "''x''" "''y''" None tech "''Tech ''"
      "[tech]" "''about''" "tech\<lparr>cat_description := Some ''about''\<rparr>" "[tech\<lparr>cat_description := Some ''about''\<rparr>]"]
  note t2 = slug_derived_only_on_name_change[of "set_name ''Tech News'' tech" "''Tech News''"]
  from t1 a b c d have "cat_slug (tech\<lparr>cat_description := Some ''about''\<rparr>) = cat_slug tech \<and> pre_save tech = Inr tech"
    by blast
  moreover from t2 e f have "pre_save (set_name ''Tech News'' tech) = Inr (set_slug (slugify ''Tech News'') (set_name ''Tech News'' tech))"
    by blast
  ultimately show ?thesis using a b c d e g by simp
qed


section \<open>Creating categories: nothing is stored\<close>

text \<open>A document made by \<open>new Category({ name, description })\<close> has no slug when
  \<open>save\<close> validates it: the hook that sets the slug runs after the validation that
  requires it. So the route answers 500 to every creation that passes its lookup.\<close>

lemma new_Category_slug: "cat_slug (new_Category oid name descr) = None"
  by (auto simp: new_Category_def set_name_def set_description_def markModified_def Let_def
      split: option.splits)

lemma save_new_Category: "Category_save isNew coll (new_Category oid name descr) = Inl ValidationError"
  by (simp add: Category_save_def validate_def required_def new_Category_slug)

lemma create_category_save_new:
  "create_category_save db (new_Category oid name descr) = ((500, Message ''Server error''), db)"
  by (simp add: create_category_save_def save_new_Category)

lemma create_category_check_doc:
  "create_category_check oid db b = Inr doc \<Longrightarrow>
   \<exists>name. doc = new_Category oid name (body_description b)"
  by (auto simp: create_category_check_def split: option.splits if_splits)

lemma create_category_stores_nothing:
  "snd (create_category oid db b) = db \<and>
   (fst (fst (create_category oid db b)) = 400 \<or>
    fst (create_category oid db b) = (500, Message ''Server error''))"
proof (cases "create_category_check oid db b")
  case (Inl res)
  hence "fst res = 400"
    by (auto simp: create_category_check_def split: option.splits if_splits)
  thus ?thesis using Inl by (simp add: create_category_def)
next
  case (Inr doc)
  from create_category_check_doc[OF Inr] obtain name
    where "doc = new_Category oid name (body_description b)" ..
  thus ?thesis using Inr by (simp add: create_category_def create_category_save_new)
qed

lemma check_Tech_fresh:
  "create_category_check oid db_fresh \<lparr>body_name = Some ''Tech'', body_description = None\<rparr> =
     Inr (new_Category oid ''Tech'' None)"
  by (simp add: create_category_check_def notEmpty_def Category_findOne_name_def db_fresh_def)

text \<open>
  Claim C6. On a store that holds no category, the category \<open>Tech\<close> is created twice,
  by two requests that pass \<open>authenticate\<close>. Served one after the other, or with both
  lookups ahead of both saves, each request is answered 500 \<open>Server error\<close> and the
  store holds no category afterwards: not one \<open>Tech\<close>, and no caller is told of a
  duplicate. For every store and every body the route leaves the store as it was and
  answers 400 or 500 \<open>Server error\<close>, never 201; the save of a document made by
  \<open>new Category({ name, description })\<close> is always answered 500 \<open>Server error\<close>.
\<close>

theorem create_category_twice_stores_none:
  "categories db_fresh = [] \<and>
   create_category ''64b000000000000000000001'' db_fresh
       \<lparr>body_name = Some ''Tech'', body_description = None\<rparr> =
     ((500, Message ''Server error''), db_fresh) \<and>
   create_category ''64b000000000000000000002''
       (snd (create_category ''64b000000000000000000001'' db_fresh
               \<lparr>body_name = Some ''Tech'', body_description = None\<rparr>))
       \<lparr>body_name = Some ''Tech'', body_description = None\<rparr> =
     ((500, Message ''Server error''), db_fresh) \<and>
   create_category_check ''64b000000000000000000001'' db_fresh
       \<lparr>body_name = Some ''Tech'', body_description = None\<rparr> =
     Inr (new_Category ''64b000000000000000000001'' ''Tech'' None) \<and>
   create_category_check ''64b000000000000000000002'' db_fresh
       \<lparr>body_name = Some ''Tech'', body_description = None\<rparr> =
     Inr (new_Category ''64b000000000000000000002'' ''Tech'' None) \<and>
   create_category_save db_fresh (new_Category ''64b000000000000000000001'' ''Tech'' None) =
     ((500, Message ''Server error''), db_fresh) \<and>
   create_category_save db_fresh (new_Category ''64b000000000000000000002'' ''Tech'' None) =
     ((500, Message ''Server error''), db_fresh) \<and>
   snd (create_category oid db b) = db \<and>
   (fst (fst (create_category oid db b)) = 400 \<or>
    fst (create_category oid db b) = (500, Message ''Server error'')) \<and>
   create_category_save db (new_Category oid name descr) = ((500, Message ''Server error''), db)"
proof -
  let ?b = "\<lparr>body_name = Some ''Tech'', body_description = None\<rparr>"
  have one: "create_category i db_fresh ?b = ((500, Message ''Server error''), db_fresh)" for i
    by (simp add: create_category_def check_Tech_fresh create_category_save_new)
  have "categories db_fresh = []" by (simp add: db_fresh_def)
  thus ?thesis
    using create_category_stores_nothing[of oid db b]
    by (simp add: one check_Tech_fresh create_category_save_new)
qed

section \<open>Resolving a post by identifier and by slug\<close>

lemma find_distinct:
  "x \<in> set xs \<Longrightarrow> distinct (map f xs) \<Longrightarrow> find (\<lambda>y. f y = f x) xs = Some x"
  by (induction xs) (auto simp: image_iff)

lemma find_SomeD: "find P xs = Some y \<Longrightarrow> y \<in> set xs \<and> P y"
  by (auto simp: find_Some_iff)

lemma populated_comp: "populate_category db \<circ> populate_author db = populated db"
  by (rule ext) (simp add: populated_def)

text \<open>
  Claim C2, as the code has it. Identifiers and slugs being unique in the store, a stored
  post with a canonical identifier and a non-empty slug that is not the identifier of
  another stored post is found, as the same populated record, by its identifier and by
  its slug. The resolver answers nothing exactly for the empty string and for a string
  that neither lookup finds; a string of the identifier's shape that the lookup by
  identifier finds is answered from that lookup, and any other non-empty string from the
  lookup by slug.
\<close>

theorem resolve_by_id_and_by_slug:
  "(p \<in> set (posts db) \<longrightarrow> distinct (map post_id (posts db)) \<longrightarrow> distinct (map slug (posts db)) \<longrightarrow>
      cast_ObjectId (post_id p) = Some (post_id p) \<longrightarrow> slug p \<noteq> [] \<longrightarrow>
      list_all (\<lambda>q. q = p \<or> post_id q \<noteq> toLowerCase (slug p)) (posts db) \<longrightarrow>
      findPostByIdOrSlug db (post_id p) = Some (populated db p) \<and>
      findPostByIdOrSlug db (slug p) = Some (populated db p)) \<and>
   (findPostByIdOrSlug db s = None \<longleftrightarrow>
      s = [] \<or> ((\<not> matches_ObjectId s \<or> Post_findById db s = None) \<and> Post_findOne_slug db s = None)) \<and>
   (matches_ObjectId s \<longrightarrow> Post_findById db s = Some q \<longrightarrow>
      findPostByIdOrSlug db s = Some (populated db q)) \<and>
   (s \<noteq> [] \<longrightarrow> \<not> matches_ObjectId s \<or> Post_findById db s = None \<longrightarrow>
      findPostByIdOrSlug db s = map_option (populated db) (Post_findOne_slug db s))"
proof (intro conjI impI)
  assume mem: "p \<in> set (posts db)" and di: "distinct (map post_id (posts db))"
    and ds: "distinct (map slug (posts db))" and canon: "cast_ObjectId (post_id p) = Some (post_id p)"
    and ne: "slug p \<noteq> []"
    and free: "list_all (\<lambda>q. q = p \<or> post_id q \<noteq> toLowerCase (slug p)) (posts db)"
  have shape: "matches_ObjectId (post_id p)"
    using canon by (auto simp: cast_ObjectId_def split: if_splits)
  hence idne: "post_id p \<noteq> []" by (auto simp: matches_ObjectId_def)
  have byid: "Post_findById db (post_id p) = Some p"
    using canon find_distinct[OF mem di] by (simp add: Post_findById_def)
  have byslug: "Post_findOne_slug db (slug p) = Some p"
    using find_distinct[OF mem ds] by (simp add: Post_findOne_slug_def)
  show "findPostByIdOrSlug db (post_id p) = Some (populated db p)"
    using shape idne byid by (simp add: findPostByIdOrSlug_def populated_comp)
  have other: "Post_findById db (slug p) = None \<or> Post_findById db (slug p) = Some p"
  proof (cases "Post_findById db (slug p)")
    case None
    then show ?thesis by simp
  next
    case (Some q)
    hence "q \<in> set (posts db) \<and> post_id q = toLowerCase (slug p)"
      by (auto simp: Post_findById_def cast_ObjectId_def split: if_splits dest: find_SomeD)
    hence "q = p" using free by (auto simp: list_all_iff)
    thus ?thesis using Some by simp
  qed
  show "findPostByIdOrSlug db (slug p) = Some (populated db p)"
    using ne other byslug by (auto simp: findPostByIdOrSlug_def populated_comp)
next
  show "findPostByIdOrSlug db s = None \<longleftrightarrow>
      s = [] \<or> ((\<not> matches_ObjectId s \<or> Post_findById db s = None) \<and> Post_findOne_slug db s = None)"
    by (auto simp: findPostByIdOrSlug_def split: option.splits)
next
  assume "matches_ObjectId s" "Post_findById db s = Some q"
  thus "findPostByIdOrSlug db s = Some (populated db q)"
    by (auto simp: findPostByIdOrSlug_def populated_comp matches_ObjectId_def)
next
  assume "s \<noteq> []" "\<not> matches_ObjectId s \<or> Post_findById db s = None"
  thus "findPostByIdOrSlug db s = map_option (populated db) (Post_findOne_slug db s)"
    by (auto simp: findPostByIdOrSlug_def populated_comp)
qed

theorem resolve_by_id_and_by_slug_witness:
  "post_hello \<in> set (posts db_blog) \<and>
   distinct (map post_id (posts db_blog)) \<and> distinct (map slug (posts db_blog)) \<and>
   cast_ObjectId (post_id post_hello) = Some (post_id post_hello) \<and>
   slug post_hello \<noteq> [] \<and>
   list_all (\<lambda>q. q = post_hello \<or> post_id q \<noteq> toLowerCase (slug post_hello)) (posts db_blog) \<and>
   findPostByIdOrSlug db_blog (post_id post_hello) = Some (populated db_blog post_hello) \<and>
   findPostByIdOrSlug db_blog (slug post_hello) = Some (populated db_blog post_hello) \<and>
   matches_ObjectId ''65B000000000000000000002'' \<and>
   Post_findById db_blog ''65B000000000000000000002'' = Some post_shadow \<and>
   findPostByIdOrSlug db_blog ''65B000000000000000000002'' = Some (populated db_blog post_shadow) \<and>
   \<not> matches_ObjectId ''hello-world-foo'' \<and>
   findPostByIdOrSlug db_blog ''hello-world-foo'' =
     map_option (populated db_blog) (Post_findOne_slug db_blog ''hello-world-foo'')"
proof -
  have h1: "post_hello \<in> set (posts db_blog)" by (simp add: db_blog_def)
  have h2: "distinct (map post_id (posts db_blog))" by code_simp
  have h3: "distinct (map slug (posts db_blog))" by code_simp
  have h4: "cast_ObjectId (post_id post_hello) = Some (post_id post_hello)" by code_simp
  have h5: "slug post_hello \<noteq> []" by code_simp
  have h6: "list_all (\<lambda>q. q = post_hello \<or> post_id q \<noteq> toLowerCase (slug post_hello)) (posts db_blog)"
    by code_simp
  have h7: "matches_ObjectId ''65B000000000000000000002''" by code_simp
  have h8: "Post_findById db_blog ''65B000000000000000000002'' = Some post_shadow" by code_simp
  have h9: "\<not> matches_ObjectId ''hello-world-foo''" by code_simp
  have h10: "''hello-world-foo'' \<noteq> []" by simp
  note t1 = resolve_by_id_and_by_slug[of post_hello db_blog "''65B000000000000000000002''" post_shadow]
  note t2 = resolve_by_id_and_by_slug[of post_hello db_blog "''hello-world-foo''" post_shadow]
  from t1 h1 h2 h3 h4 h5 h6 h7 h8 have
    "findPostByIdOrSlug db_blog (post_id post_hello) = Some (populated db_blog post_hello) \<and>
     findPostByIdOrSlug db_blog (slug post_hello) = Some (populated db_blog post_hello) \<and>
     findPostByIdOrSlug db_blog ''65B000000000000000000002'' = Some (populated db_blog post_shadow)"
    by blast
  moreover from t2 h9 h10 have
    "findPostByIdOrSlug db_blog ''hello-world-foo'' =
       map_option (populated db_blog) (Post_findOne_slug db_blog ''hello-world-foo'')"
    by blast
  ultimately show ?thesis using h1 h2 h3 h4 h5 h6 h7 h8 h9 by blast
qed

text \<open>Claim C2 as the specification states it fails on the example store: the second
  post's slug is the first post's identifier, and resolving that slug gives the first
  post.\<close>

theorem slug_shadowed_by_id:
  "post_shadow \<in> set (posts db_blog) \<and>
   findPostByIdOrSlug db_blog (post_id post_shadow) = Some (populated db_blog post_shadow) \<and>
   findPostByIdOrSlug db_blog (slug post_shadow) = Some (populated db_blog post_hello) \<and>
   populated db_blog post_hello \<noteq> populated db_blog post_shadow"
  by code_simp

section \<open>The authentication middleware: who passes\<close>

lemma js_split_no_sep: "sep \<notin> set t \<Longrightarrow> js_split sep t = [t]"
  by (induction t) auto

lemma js_split_append:
  "sep \<notin> set w \<Longrightarrow> js_split sep (w @ sep # t) = w # js_split sep t"
  by (induction w) auto

lemma bearer_token:
  "CHR '' '' \<notin> set t \<Longrightarrow> token_of (''Bearer '' @ t) = Some t"
proof -
  assume no: "CHR '' '' \<notin> set t"
  have "js_split (CHR '' '') (''Bearer'' @ CHR '' '' # t) = ''Bearer'' # js_split (CHR '' '') t"
    by (rule js_split_append) simp
  thus ?thesis using no by (simp add: js_split_no_sep js_index_def token_of_def)
qed

lemma startsWith_nonempty: "startsWith ''Bearer '' h \<Longrightarrow> h \<noteq> []"
  by (auto simp: startsWith_def)

lemma authenticate_admitted:
  "admitted lib env now db hdrs stored \<Longrightarrow>
   authenticate lib env now db hdrs = Inr (stored\<lparr>password := None\<rparr>)"
  by (auto simp: admitted_def authenticate_def select_without_password_def
      dest: startsWith_nonempty split: option.splits sum.splits)

lemma authenticate_refused:
  "\<forall>stored. \<not> admitted lib env now db hdrs stored \<Longrightarrow>
   \<exists>msg. authenticate lib env now db hdrs = Inl (401, Failure msg)"
proof (cases "authHeader_of hdrs")
  case None
  then show ?thesis by (simp add: authenticate_def)
next
  case (Some h)
  assume no: "\<forall>stored. \<not> admitted lib env now db hdrs stored"
  show ?thesis
  proof (cases "h = [] \<or> \<not> startsWith ''Bearer '' h")
    case True
    then show ?thesis using Some by (simp add: authenticate_def)
  next
    case shaped: False
    show ?thesis
    proof (cases "verify_token lib env (token_of h) now")
      case (Inl e)
      then show ?thesis using Some shaped by (simp add: authenticate_def)
    next
      case (Inr decoded)
      show ?thesis
      proof (cases "User_findById db (payload_id decoded)")
        case (Inl e)
        then show ?thesis using Some shaped Inr by (simp add: authenticate_def)
      next
        case found: (Inr found)
        have "found = None"
        proof (cases found)
          case None
          then show ?thesis .
        next
          case (Some stored)
          hence "admitted lib env now db hdrs stored"
            using \<open>authHeader_of hdrs = Some h\<close> shaped Inr found by (simp add: admitted_def)
          thus ?thesis using no by blast
        qed
        then show ?thesis using Some shaped Inr found by (simp add: authenticate_def)
      qed
    qed
  qed
qed

lemma admitted_unique:
  "admitted lib env now db hdrs a \<Longrightarrow> admitted lib env now db hdrs b \<Longrightarrow> a = b"
  by (auto simp: admitted_def split: option.splits sum.splits)

lemma demo_token: "token_of ''Bearer header.payload.signature'' = Some ''header.payload.signature''"
  by code_simp
lemma demo_verify:
  "verify_token demo_lib None (Some ''header.payload.signature'') 2000000 =
     Inr \<lparr>payload_id = Some ''65a000000000000000000001'', payload_iat = 1000,
          payload_exp = Some 605800\<rparr>"
  by (simp add: verify_token_def jwt_verify_def demo_lib_def jwt_secret_def)
lemma demo_user: "User_findById db_blog (Some ''65a000000000000000000001'') = Inr (Some alice)"
  by code_simp

lemma demo_admitted:
  "admitted demo_lib None 2000000 db_blog
     [''authorization'' \<mapsto> ''Bearer header.payload.signature''] alice"
  by (simp add: admitted_def authHeader_of_def js_or_def startsWith_def demo_token demo_verify demo_user)

lemma demo_refused:
  "authenticate demo_lib None 2000000 db_blog Map.empty = Inl (401, Failure ''No token provided'')"
  by (simp add: authenticate_def authHeader_of_def js_or_def)

lemma authenticate_by_admitted:
  "(authenticate lib env now db hdrs = Inr u \<longleftrightarrow>
      (\<exists>stored. admitted lib env now db hdrs stored \<and> u = stored\<lparr>password := None\<rparr>)) \<and>
   ((\<exists>res. authenticate lib env now db hdrs = Inl res) \<longleftrightarrow>
      (\<forall>stored. \<not> admitted lib env now db hdrs stored)) \<and>
   (authenticate lib env now db hdrs = Inl res \<longrightarrow> fst res = 401)"
proof (cases "\<exists>stored. admitted lib env now db hdrs stored")
  case True
  then obtain stored where ad: "admitted lib env now db hdrs stored" ..
  have ok: "authenticate lib env now db hdrs = Inr (stored\<lparr>password := None\<rparr>)"
    using ad by (rule authenticate_admitted)
  have only: "\<And>s. admitted lib env now db hdrs s \<Longrightarrow> s = stored"
    using ad admitted_unique by blast
  have a: "authenticate lib env now db hdrs = Inr u \<longleftrightarrow>
      (\<exists>stored. admitted lib env now db hdrs stored \<and> u = stored\<lparr>password := None\<rparr>)"
  proof
    assume "authenticate lib env now db hdrs = Inr u"
    hence "u = stored\<lparr>password := None\<rparr>" using ok by simp
    thus "\<exists>stored. admitted lib env now db hdrs stored \<and> u = stored\<lparr>password := None\<rparr>"
      using ad by blast
  next
    assume "\<exists>stored. admitted lib env now db hdrs stored \<and> u = stored\<lparr>password := None\<rparr>"
    then obtain s where "admitted lib env now db hdrs s" "u = s\<lparr>password := None\<rparr>" by blast
    thus "authenticate lib env now db hdrs = Inr u" using only ok by blast
  qed
  have b: "(\<exists>res. authenticate lib env now db hdrs = Inl res) \<longleftrightarrow>
      (\<forall>stored. \<not> admitted lib env now db hdrs stored)"
    using ok ad by (simp only: sum.distinct) blast
  have c: "authenticate lib env now db hdrs = Inl res \<longrightarrow> fst res = 401"
    using ok by simp
  from a b c show ?thesis by blast
next
  case False
  hence no: "\<forall>stored. \<not> admitted lib env now db hdrs stored" by blast
  then obtain msg where bad: "authenticate lib env now db hdrs = Inl (401, Failure msg)"
    using authenticate_refused by blast
  have a: "authenticate lib env now db hdrs = Inr u \<longleftrightarrow>
      (\<exists>stored. admitted lib env now db hdrs stored \<and> u = stored\<lparr>password := None\<rparr>)"
    using bad no by simp
  have b: "(\<exists>res. authenticate lib env now db hdrs = Inl res) \<longleftrightarrow>
      (\<forall>stored. \<not> admitted lib env now db hdrs stored)"
    using bad no by simp
  have c: "authenticate lib env now db hdrs = Inl res \<longrightarrow> fst res = 401"
    using bad by auto
  from a b c show ?thesis by blast
qed

lemma not_admitted_iff:
  "(\<forall>stored. \<not> admitted lib env now db hdrs stored) \<longleftrightarrow>
     (authHeader_of hdrs = None \<or>
      (\<exists>h. authHeader_of hdrs = Some h \<and>
           (\<not> startsWith ''Bearer '' h \<or>
            (\<exists>err. verify_token lib env (token_of h) now = Inl err) \<or>
            (\<exists>decoded. verify_token lib env (token_of h) now = Inr decoded \<and>
                (\<forall>stored. User_findById db (payload_id decoded) \<noteq> Inr (Some stored))))))"
proof (cases "authHeader_of hdrs")
  case None
  then show ?thesis by (simp add: admitted_def)
next
  case (Some h)
  show ?thesis
  proof (cases "verify_token lib env (token_of h) now")
    case (Inl err)
    then show ?thesis using Some by (simp add: admitted_def)
  next
    case (Inr decoded)
    then show ?thesis using Some by (simp add: admitted_def)
  qed
qed

text \<open>
  Claim C4. \<open>authenticate\<close> lets a request through exactly when its authorization header starts
  with \<open>Bearer \<close>, the token in it verifies and a user is stored under the identity the
  token carries; the user it hands on is that stored user without the password. It
  answers instead exactly when the header is missing or does not start with \<open>Bearer \<close>,
  or the token does not verify, or no user is stored under the token's identity; and
  what it answers is 401.
\<close>

theorem authenticate_outcome:
  "(authenticate lib env now db hdrs = Inr u \<longleftrightarrow>
      (\<exists>stored. admitted lib env now db hdrs stored \<and> u = stored\<lparr>password := None\<rparr>)) \<and>
   ((\<exists>res. authenticate lib env now db hdrs = Inl res) \<longleftrightarrow>
      (authHeader_of hdrs = None \<or>
       (\<exists>h. authHeader_of hdrs = Some h \<and>
            (\<not> startsWith ''Bearer '' h \<or>
             (\<exists>err. verify_token lib env (token_of h) now = Inl err) \<or>
             (\<exists>decoded. verify_token lib env (token_of h) now = Inr decoded \<and>
                 (\<forall>stored. User_findById db (payload_id decoded) \<noteq> Inr (Some stored))))))) \<and>
   (authenticate lib env now db hdrs = Inl res \<longrightarrow> fst res = 401)"
proof -
  note by_admitted = authenticate_by_admitted[of lib env now db hdrs u res]
  note refused = not_admitted_iff[of lib env now db hdrs]
  from by_admitted have a: "authenticate lib env now db hdrs = Inr u \<longleftrightarrow>
      (\<exists>stored. admitted lib env now db hdrs stored \<and> u = stored\<lparr>password := None\<rparr>)"
    by (rule conjunct1)
  from by_admitted have b: "(\<exists>res. authenticate lib env now db hdrs = Inl res) \<longleftrightarrow>
      (\<forall>stored. \<not> admitted lib env now db hdrs stored)"
    by (elim conjE)
  from by_admitted have c: "authenticate lib env now db hdrs = Inl res \<longrightarrow> fst res = 401"
    by (elim conjE)
  from a b[unfolded refused] c show ?thesis by (intro conjI)
qed

theorem authenticate_outcome_witness:
  "admitted demo_lib None 2000000 db_blog
     [''authorization'' \<mapsto> ''Bearer header.payload.signature''] alice \<and>
   authenticate demo_lib None 2000000 db_blog
     [''authorization'' \<mapsto> ''Bearer header.payload.signature''] =
       Inr (alice\<lparr>password := None\<rparr>) \<and>
   authenticate demo_lib None 2000000 db_blog Map.empty = Inl (401, Failure ''No token provided'') \<and>
   fst (401 :: nat, Failure ''No token provided'') = 401"
proof -
  let ?hdrs = "[''authorization'' \<mapsto> ''Bearer header.payload.signature'']"
  note t1 = authenticate_outcome[of demo_lib None 2000000 db_blog ?hdrs
      "alice\<lparr>password := None\<rparr>" "(401, Failure ''No token provided'')"]
  note t2 = authenticate_outcome[of demo_lib None 2000000 db_blog Map.empty
      "alice\<lparr>password := None\<rparr>" "(401, Failure ''No token provided'')"]
  from t1 demo_admitted have
    "authenticate demo_lib None 2000000 db_blog ?hdrs = Inr (alice\<lparr>password := None\<rparr>)"
    by blast
  moreover from t2 demo_refused have "fst (401 :: nat, Failure ''No token provided'') = 401"
    by blast
  ultimately show ?thesis using demo_admitted demo_refused by blast
qed

section \<open>Tokens: valid until they expire\<close>

text \<open>The example library decodes what it encodes, and its tokens are not empty and hold
  no space.\<close>

lemma digit_val_char: "d < 10 \<Longrightarrow> digit_val (digit_char d) = d"
  by (simp add: digit_val_def digit_char_def)

lemma nibble_val_char: "d < 16 \<Longrightarrow> nibble_val (nibble_char d) = d"
  by (simp add: nibble_val_def nibble_char_def)

lemma digit_char_code: "d < 10 \<Longrightarrow> of_char (digit_char d) = 48 + d"
  by (simp add: digit_char_def)

lemma nibble_char_code: "d < 16 \<Longrightarrow> of_char (nibble_char d) = 97 + d"
  by (simp add: nibble_char_def)

lemma decimal_chars: "c \<in> set (decimal n) \<Longrightarrow> \<exists>d<10. c = digit_char d"
proof (induction n rule: decimal.induct)
  case (1 n)
  show ?case
  proof (cases "n < 10")
    case True
    thus ?thesis using 1(2) by (subst (asm) decimal.simps) auto
  next
    case False
    have "c \<in> set (decimal (n div 10)) \<or> c = digit_char (n mod 10)"
      using 1(2) False by (subst (asm) decimal.simps) auto
    thus ?thesis using 1(1)[OF False] by (metis mod_less_divisor zero_less_numeral)
  qed
qed

lemma undecimal_snoc: "undecimal (s @ [c]) = 10 * undecimal s + digit_val c"
  by (simp add: undecimal_def)

lemma undecimal_decimal: "undecimal (decimal n) = n"
proof (induction n rule: decimal.induct)
  case (1 n)
  show ?case
  proof (cases "n < 10")
    case True
    thus ?thesis by (subst decimal.simps) (simp add: undecimal_def digit_val_char)
  next
    case False
    have "undecimal (decimal n) = 10 * undecimal (decimal (n div 10)) + digit_val (digit_char (n mod 10))"
      using False by (subst decimal.simps) (simp add: undecimal_snoc)
    also have "\<dots> = 10 * (n div 10) + n mod 10"
      using 1[OF False] by (simp add: digit_val_char)
    finally show ?thesis by simp
  qed
qed

lemma decimal_ne: "decimal n \<noteq> []"
  by (subst decimal.simps) simp

lemma hex_chars: "c \<in> set (hex_of s) \<Longrightarrow> \<exists>d<16. c = nibble_char d"
proof -
  assume "c \<in> set (hex_of s)"
  then obtain x where "c = nibble_char (of_char x div 16) \<or> c = nibble_char (of_char x mod 16)"
    by (auto simp: hex_of_def)
  moreover have "(of_char x :: nat) div 16 < 16"
    using nat_of_char_less_256[of x] by (simp add: less_mult_imp_div_less)
  moreover have "(of_char x :: nat) mod 16 < 16" by simp
  ultimately show ?thesis by blast
qed

lemma unhex_hex: "unhex (hex_of s) = s"
proof (induction s)
  case Nil
  show ?case by (simp add: hex_of_def)
next
  case (Cons x s)
  have hi: "(of_char x :: nat) div 16 < 16"
    using nat_of_char_less_256[of x] by (simp add: less_mult_imp_div_less)
  have "hex_of (x # s) = nibble_char (of_char x div 16) # nibble_char (of_char x mod 16) # hex_of s"
    by (simp add: hex_of_def)
  hence "unhex (hex_of (x # s)) = char_of (16 * (of_char x div 16) + of_char x mod 16 :: nat) # unhex (hex_of s)"
    using hi by (simp add: nibble_val_char)
  thus ?case using Cons.IH by simp
qed

lemma no_digit: "of_char x < (48 :: nat) \<Longrightarrow> x \<notin> set (decimal n)"
  using decimal_chars[of x n] by (auto simp: digit_char_code)

lemma no_nibble: "of_char x < (97 :: nat) \<Longrightarrow> x \<notin> set (hex_of s)"
  using hex_chars[of x s] by (auto simp: nibble_char_code)

lemma id_text_chars: "of_char x < (97 :: nat) \<Longrightarrow> x \<notin> set (id_text v)"
  using no_nibble[of x] by (auto simp: id_text_def split: option.splits)

lemma exp_text_chars: "of_char x < (48 :: nat) \<Longrightarrow> x \<notin> set (exp_text v)"
  using no_digit[of x] by (auto simp: exp_text_def split: option.splits)

lemma un_id_text: "un_id (id_text v) = v"
  by (simp add: un_id_def id_text_def unhex_hex split: option.splits)

lemma un_exp_text: "un_exp (exp_text v) = v"
  by (simp add: un_exp_def exp_text_def undecimal_decimal split: option.splits)

lemma codec_parse_encode: "codec_parse (codec_encode j) = Some j"
proof -
  let ?a = "id_text (payload_id (jwt_payload j))"
  let ?b = "decimal (payload_iat (jwt_payload j))"
  let ?c = "exp_text (payload_exp (jwt_payload j))"
  let ?d = "hex_of (jwt_signature j)"
  have na: "CHR ''.'' \<notin> set ?a" by (rule id_text_chars) simp
  have nb: "CHR ''.'' \<notin> set ?b" by (rule no_digit) simp
  have nc: "CHR ''.'' \<notin> set ?c" by (rule exp_text_chars) simp
  have nd: "CHR ''.'' \<notin> set ?d" by (rule no_nibble) simp
  have enc: "codec_encode j = ?a @ CHR ''.'' # ?b @ CHR ''.'' # ?c @ CHR ''.'' # ?d"
    by (simp add: codec_encode_def payload_text_def)
  have "js_split (CHR ''.'') (codec_encode j) = [?a, ?b, ?c, ?d]"
    unfolding enc
    by (simp only: js_split_append[OF na] js_split_append[OF nb] js_split_append[OF nc]
        js_split_no_sep[OF nd])
  thus ?thesis
    by (simp add: codec_parse_def un_id_text un_exp_text undecimal_decimal unhex_hex)
qed

lemma codec_round_trip: "decode codec_lib (encode codec_lib j) = Some j"
  by (simp add: codec_lib_def codec_decode_def codec_parse_encode)

lemma codec_nonempty: "encode codec_lib j \<noteq> []"
  by (simp add: codec_lib_def codec_encode_def)

lemma codec_no_space: "CHR '' '' \<notin> set (encode codec_lib j)"
proof -
  have "CHR '' '' \<notin> set (id_text (payload_id (jwt_payload j)))" by (rule id_text_chars) simp
  moreover have "CHR '' '' \<notin> set (decimal (payload_iat (jwt_payload j)))" by (rule no_digit) simp
  moreover have "CHR '' '' \<notin> set (exp_text (payload_exp (jwt_payload j)))"
    by (rule exp_text_chars) simp
  moreover have "CHR '' '' \<notin> set (hex_of (jwt_signature j))" by (rule no_nibble) simp
  ultimately show ?thesis by (simp add: codec_lib_def codec_encode_def payload_text_def)
qed

lemma demo_expiry: "expiry_ms 1000000 = 605800000"
  by (simp add: expiry_ms_def seven_days_def)

lemma codec_payload:
  "payload_text \<lparr>payload_id = Some ''65a000000000000000000001'', payload_iat = 1000,
                  payload_exp = Some 605800\<rparr> =
     ''idgdfgbdadadadadadadadadadadadadadadadadadadadadb.1000.e605800''"
  by (simp add: payload_text_def id_text_def exp_text_def hex_of_def nibble_char_def
      decimal.simps digit_char_def char_of_eq_iff)

lemma codec_issue:
  "issue_token codec_lib None ''65a000000000000000000001'' 1000000 =
     ''idgdfgbdadadadadadadadadadadadadadadadadadadadadb.1000.e605800.hdgfgdhcgfhecpgjgeghgeggghgcgegbgegbgegbgegbgegbgegbgegbgegbgegbgegbgegbgegbgegbgegbgegbgegbgegbgegbgegbgegbgegccodbdadadacogfdgdadfdidada''"
  by (simp add: issue_token_def jwt_sign_def signed_def jwt_secret_def seven_days_def
      codec_lib_def codec_encode_def codec_hs256_def codec_payload)
     (simp add: hex_of_def nibble_char_def char_of_eq_iff)

text \<open>
  Claim C3. Let the library decode every token it encodes to that token, and encode none
  as the empty text. The token the routes issue for \<open>uid\<close> at \<open>t0\<close>, verified as
  \<open>authenticate\<close> verifies it at any instant before \<open>expiry_ms t0\<close>, which is seven days
  after the second of issue, yields the payload with \<open>uid\<close>, the second of issue and the
  expiry seven days later; when moreover no token holds a space, \<open>authenticate\<close> hands
  on the user stored under \<open>uid\<close>, without the password. At that instant and at any
  later one verification fails with \<open>TokenExpiredError\<close> and \<open>authenticate\<close> answers 401.
\<close>

theorem token_valid_until_expiry:
  "(\<forall>j. decode lib (encode lib j) = Some j) \<longrightarrow>
   (\<forall>j. encode lib j \<noteq> []) \<longrightarrow>
   expiry_ms t0 = (t0 div 1000) * 1000 + 7 * 24 * 60 * 60 * 1000 \<and>
   (now < expiry_ms t0 \<longrightarrow>
      verify_token lib env (Some (issue_token lib env uid t0)) now =
        Inr \<lparr>payload_id = Some uid, payload_iat = t0 div 1000,
              payload_exp = Some (t0 div 1000 + 7 * 24 * 60 * 60)\<rparr>) \<and>
   (now < expiry_ms t0 \<longrightarrow> (\<forall>j. CHR '' '' \<notin> set (encode lib j)) \<longrightarrow>
      User_findById db (Some uid) = Inr (Some stored) \<longrightarrow>
      authenticate lib env now db [''authorization'' \<mapsto> ''Bearer '' @ issue_token lib env uid t0] =
        Inr (stored\<lparr>password := None\<rparr>)) \<and>
   (expiry_ms t0 \<le> now \<longrightarrow>
      verify_token lib env (Some (issue_token lib env uid t0)) now = Inl TokenExpiredError) \<and>
   (expiry_ms t0 \<le> now \<longrightarrow> (\<forall>j. CHR '' '' \<notin> set (encode lib j)) \<longrightarrow>
      authenticate lib env now db [''authorization'' \<mapsto> ''Bearer '' @ issue_token lib env uid t0] =
        Inl (401, Failure ''Token verification failed''))"
proof (intro impI)
  let ?tok = "issue_token lib env uid t0"
  let ?p = "\<lparr>payload_id = Some uid, payload_iat = t0 div 1000,
             payload_exp = Some (t0 div 1000 + seven_days)\<rparr>"
  let ?j = "\<lparr>jwt_payload = ?p, jwt_signature = hs256 lib (jwt_secret env) ?p\<rparr>"
  let ?hdrs = "[''authorization'' \<mapsto> ''Bearer '' @ ?tok]"
  assume inv: "\<forall>j. decode lib (encode lib j) = Some j" and nonempty: "\<forall>j. encode lib j \<noteq> []"
  have tok: "?tok = encode lib ?j"
    by (simp add: issue_token_def jwt_sign_def signed_def Let_def)
  have dec: "decode lib ?tok = Some ?j" unfolding tok using inv by blast
  have ne: "?tok \<noteq> []" unfolding tok using nonempty by blast
  have week: "seven_days = 7 * 24 * 60 * 60" by (simp add: seven_days_def)
  have before: "now < expiry_ms t0 \<Longrightarrow> \<not> t0 div 1000 + seven_days \<le> now div 1000"
    unfolding expiry_ms_def by (simp add: div_less_iff_less_mult not_le)
  have after: "expiry_ms t0 \<le> now \<Longrightarrow> t0 div 1000 + seven_days \<le> now div 1000"
    unfolding expiry_ms_def by (simp add: less_eq_div_iff_mult_less_eq)
  have valid: "now < expiry_ms t0 \<Longrightarrow> verify_token lib env (Some ?tok) now = Inr ?p"
    using dec ne before by (simp add: verify_token_def jwt_verify_def)
  have expired: "expiry_ms t0 \<le> now \<Longrightarrow> verify_token lib env (Some ?tok) now = Inl TokenExpiredError"
    using dec ne after by (simp add: verify_token_def jwt_verify_def)
  have hdr: "authHeader_of ?hdrs = Some (''Bearer '' @ ?tok)"
    by (simp add: authHeader_of_def js_or_def)
  have shape: "startsWith ''Bearer '' (''Bearer '' @ ?tok)" by (simp add: startsWith_def)
  have field: "\<forall>j. CHR '' '' \<notin> set (encode lib j) \<Longrightarrow> token_of (''Bearer '' @ ?tok) = Some ?tok"
  proof -
    assume "\<forall>j. CHR '' '' \<notin> set (encode lib j)"
    hence "CHR '' '' \<notin> set ?tok" unfolding tok by blast
    thus ?thesis by (rule bearer_token)
  qed
  have c1: "expiry_ms t0 = (t0 div 1000) * 1000 + 7 * 24 * 60 * 60 * 1000"
    by (simp add: expiry_ms_def seven_days_def)
  have c2: "now < expiry_ms t0 \<longrightarrow>
      verify_token lib env (Some ?tok) now =
        Inr \<lparr>payload_id = Some uid, payload_iat = t0 div 1000,
              payload_exp = Some (t0 div 1000 + 7 * 24 * 60 * 60)\<rparr>"
    using valid unfolding week by blast
  have c3: "now < expiry_ms t0 \<longrightarrow> (\<forall>j. CHR '' '' \<notin> set (encode lib j)) \<longrightarrow>
      User_findById db (Some uid) = Inr (Some stored) \<longrightarrow>
      authenticate lib env now db ?hdrs = Inr (stored\<lparr>password := None\<rparr>)"
  proof (intro impI)
    assume early: "now < expiry_ms t0" and nosp: "\<forall>j. CHR '' '' \<notin> set (encode lib j)"
      and found: "User_findById db (Some uid) = Inr (Some stored)"
    have "admitted lib env now db ?hdrs stored"
      using hdr shape valid[OF early] field[OF nosp] found by (simp add: admitted_def)
    thus "authenticate lib env now db ?hdrs = Inr (stored\<lparr>password := None\<rparr>)"
      by (rule authenticate_admitted)
  qed
  have c4: "expiry_ms t0 \<le> now \<longrightarrow> verify_token lib env (Some ?tok) now = Inl TokenExpiredError"
    using expired by blast
  have c5: "expiry_ms t0 \<le> now \<longrightarrow> (\<forall>j. CHR '' '' \<notin> set (encode lib j)) \<longrightarrow>
      authenticate lib env now db ?hdrs = Inl (401, Failure ''Token verification failed'')"
  proof (intro impI)
    assume late: "expiry_ms t0 \<le> now" and nosp: "\<forall>j. CHR '' '' \<notin> set (encode lib j)"
    show "authenticate lib env now db ?hdrs = Inl (401, Failure ''Token verification failed'')"
      using hdr shape expired[OF late] field[OF nosp] ne by (simp add: authenticate_def)
  qed
  from c1 c2 c3 c4 c5 show
    "expiry_ms t0 = (t0 div 1000) * 1000 + 7 * 24 * 60 * 60 * 1000 \<and>
     (now < expiry_ms t0 \<longrightarrow>
        verify_token lib env (Some ?tok) now =
          Inr \<lparr>payload_id = Some uid, payload_iat = t0 div 1000,
                payload_exp = Some (t0 div 1000 + 7 * 24 * 60 * 60)\<rparr>) \<and>
     (now < expiry_ms t0 \<longrightarrow> (\<forall>j. CHR '' '' \<notin> set (encode lib j)) \<longrightarrow>
        User_findById db (Some uid) = Inr (Some stored) \<longrightarrow>
        authenticate lib env now db ?hdrs = Inr (stored\<lparr>password := None\<rparr>)) \<and>
     (expiry_ms t0 \<le> now \<longrightarrow>
        verify_token lib env (Some ?tok) now = Inl TokenExpiredError) \<and>
     (expiry_ms t0 \<le> now \<longrightarrow> (\<forall>j. CHR '' '' \<notin> set (encode lib j)) \<longrightarrow>
        authenticate lib env now db ?hdrs = Inl (401, Failure ''Token verification failed''))"
    by (intro conjI)
qed

theorem token_valid_until_expiry_witness:
  "(\<forall>j. decode codec_lib (encode codec_lib j) = Some j) \<and>
   (\<forall>j. encode codec_lib j \<noteq> []) \<and>
   (\<forall>j. CHR '' '' \<notin> set (encode codec_lib j)) \<and>
   issue_token codec_lib None ''65a000000000000000000001'' 1000000 =
     ''idgdfgbdadadadadadadadadadadadadadadadadadadadadb.1000.e605800.hdgfgdhcgfhecpgjgeghgeggghgcgegbgegbgegbgegbgegbgegbgegbgegbgegbgegbgegbgegbgegbgegbgegbgegbgegbgegbgegbgegbgegccodbdadadacogfdgdadfdidada'' \<and>
   expiry_ms 1000000 = 605800000 \<and>
   User_findById db_blog (Some ''65a000000000000000000001'') = Inr (Some alice) \<and>
   verify_token codec_lib None
       (Some (issue_token codec_lib None ''65a000000000000000000001'' 1000000)) 605799999 =
     Inr \<lparr>payload_id = Some ''65a000000000000000000001'', payload_iat = 1000,
           payload_exp = Some 605800\<rparr> \<and>
   authenticate codec_lib None 605799999 db_blog
       [''authorization'' \<mapsto>
          ''Bearer '' @ issue_token codec_lib None ''65a000000000000000000001'' 1000000] =
     Inr (alice\<lparr>password := None\<rparr>) \<and>
   verify_token codec_lib None
       (Some (issue_token codec_lib None ''65a000000000000000000001'' 1000000)) 605800000 =
     Inl TokenExpiredError \<and>
   authenticate codec_lib None 605800000 db_blog
       [''authorization'' \<mapsto>
          ''Bearer '' @ issue_token codec_lib None ''65a000000000000000000001'' 1000000] =
     Inl (401, Failure ''Token verification failed'')"
proof -
  let ?uid = "''65a000000000000000000001''"
  let ?tok = "issue_token codec_lib None ?uid 1000000"
  have inv: "\<forall>j. decode codec_lib (encode codec_lib j) = Some j"
    by (simp add: codec_round_trip)
  have ne: "\<forall>j. encode codec_lib j \<noteq> []" by (simp add: codec_nonempty)
  have nosp: "\<forall>j. CHR '' '' \<notin> set (encode codec_lib j)" by (simp add: codec_no_space)
  have early: "(605799999 :: nat) < expiry_ms 1000000" by (simp add: demo_expiry)
  have late: "expiry_ms 1000000 \<le> (605800000 :: nat)" by (simp add: demo_expiry)
  have secs: "(1000000 :: nat) div 1000 = 1000" "(1000 :: nat) + 7 * 24 * 60 * 60 = 605800"
    by simp_all
  note t1 = token_valid_until_expiry[of codec_lib 1000000 605799999 None ?uid db_blog alice]
  note t2 = token_valid_until_expiry[of codec_lib 1000000 605800000 None ?uid db_blog alice]
  from t1 inv ne nosp early demo_user have
    "verify_token codec_lib None (Some ?tok) 605799999 =
       Inr \<lparr>payload_id = Some ?uid, payload_iat = 1000000 div 1000,
             payload_exp = Some (1000000 div 1000 + 7 * 24 * 60 * 60)\<rparr> \<and>
     authenticate codec_lib None 605799999 db_blog [''authorization'' \<mapsto> ''Bearer '' @ ?tok] =
       Inr (alice\<lparr>password := None\<rparr>)"
    by blast
  moreover from t2 inv ne nosp late have
    "verify_token codec_lib None (Some ?tok) 605800000 = Inl TokenExpiredError \<and>
     authenticate codec_lib None 605800000 db_blog [''authorization'' \<mapsto> ''Bearer '' @ ?tok] =
       Inl (401, Failure ''Token verification failed'')"
    by blast
  ultimately show ?thesis using inv ne nosp demo_expiry demo_user codec_issue
    by (simp only: secs simp_thms)
qed

section \<open>Reading a post\<close>

text \<open>
  Claim C5. When the resolver finds the post, \<open>GET /:id\<close> answers 200 with the document
  as \<open>incrementViewCount\<close> left it and has called \<open>incrementViewCount\<close> once: the store
  after the request is the store the increment's one write made when the write
  succeeds, and the store as it was when the write fails. The answer is the same when
  the write fails. When the resolver finds nothing the answer is 404,
  \<open>incrementViewCount\<close> is not called and the store is as it was. The router serves a
  one-segment \<open>GET\<close> path by this handler, with no \<open>authenticate\<close> before it.
\<close>

theorem get_post_serves_whatever_the_increment:
  "(findPostByIdOrSlug db idOrSlug = Some post \<longrightarrow>
      fst (get_post inc db idOrSlug) = (200, PostJson (fst (inc post))) \<and>
      snd (snd (get_post inc db idOrSlug)) = [IncrementViewCount (post_id post)] \<and>
      fst (snd (get_post inc db idOrSlug)) =
        (case snd (inc post) db of None \<Rightarrow> db | Some db' \<Rightarrow> db') \<and>
      fst (get_post (\<lambda>p. (fst (inc p), \<lambda>d. None)) db idOrSlug) = fst (get_post inc db idOrSlug) \<and>
      fst (snd (get_post (\<lambda>p. (fst (inc p), \<lambda>d. None)) db idOrSlug)) = db) \<and>
   (findPostByIdOrSlug db idOrSlug = None \<longrightarrow>
      get_post inc db idOrSlug = ((404, Message ''Post not found''), db, [])) \<and>
   (idOrSlug \<noteq> [] \<longrightarrow> dispatch GET [idOrSlug] = Some (GetPost, False, [idOrSlug]))"
  by (auto simp: get_post_def split_def Let_def dispatch_def posts_routes_def)

theorem get_post_serves_whatever_the_increment_witness:
  "findPostByIdOrSlug db_blog ''hello-world-foo'' = Some (populated db_blog post_hello) \<and>
   fst (get_post failing_increment db_blog ''hello-world-foo'') =
     (200, PostJson ((populated db_blog post_hello)\<lparr>viewCount := 1\<rparr>)) \<and>
   snd (snd (get_post failing_increment db_blog ''hello-world-foo'')) =
     [IncrementViewCount ''65b000000000000000000001''] \<and>
   fst (snd (get_post failing_increment db_blog ''hello-world-foo'')) = db_blog \<and>
   fst (get_post counting_increment db_blog ''hello-world-foo'') =
     (200, PostJson ((populated db_blog post_hello)\<lparr>viewCount := 1\<rparr>)) \<and>
   snd (snd (get_post counting_increment db_blog ''hello-world-foo'')) =
     [IncrementViewCount ''65b000000000000000000001''] \<and>
   fst (snd (get_post counting_increment db_blog ''hello-world-foo'')) =
     db_blog\<lparr>posts := [post_hello\<lparr>viewCount := 1\<rparr>, post_shadow]\<rparr> \<and>
   findPostByIdOrSlug db_blog ''no-such-post'' = None \<and>
   get_post failing_increment db_blog ''no-such-post'' =
     ((404, Message ''Post not found''), db_blog, []) \<and>
   dispatch GET [''hello-world-foo''] = Some (GetPost, False, [''hello-world-foo''])"
proof -
  let ?p = "populated db_blog post_hello"
  have f1: "findPostByIdOrSlug db_blog ''hello-world-foo'' = Some ?p" by code_simp
  have f2: "findPostByIdOrSlug db_blog ''no-such-post'' = None" by code_simp
  have inc: "fst (failing_increment ?p) = ?p\<lparr>viewCount := 1\<rparr>" by code_simp
  have cnt: "fst (counting_increment ?p) = ?p\<lparr>viewCount := 1\<rparr>" by code_simp
  have wr: "snd (counting_increment ?p) db_blog =
      Some (db_blog\<lparr>posts := [post_hello\<lparr>viewCount := 1\<rparr>, post_shadow]\<rparr>)"
    by code_simp
  have pid: "post_id ?p = ''65b000000000000000000001''" by code_simp
  have same: "(\<lambda>p. (fst (failing_increment p), \<lambda>d. None)) = failing_increment"
    by (rule ext) (simp add: failing_increment_def)
  have ne: "''hello-world-foo'' \<noteq> []" by simp
  note t1 = get_post_serves_whatever_the_increment[of db_blog "''hello-world-foo''" ?p
      failing_increment]
  note t2 = get_post_serves_whatever_the_increment[of db_blog "''no-such-post''" ?p
      failing_increment]
  note t3 = get_post_serves_whatever_the_increment[of db_blog "''hello-world-foo''" ?p
      counting_increment]
  from t1 f1 ne have
    "fst (get_post failing_increment db_blog ''hello-world-foo'') =
       (200, PostJson (fst (failing_increment ?p))) \<and>
     snd (snd (get_post failing_increment db_blog ''hello-world-foo'')) =
       [IncrementViewCount (post_id ?p)] \<and>
     fst (snd (get_post (\<lambda>p. (fst (failing_increment p), \<lambda>d. None)) db_blog ''hello-world-foo'')) =
       db_blog \<and>
     dispatch GET [''hello-world-foo''] = Some (GetPost, False, [''hello-world-foo''])"
    by blast
  moreover from t2 f2 have
    "get_post failing_increment db_blog ''no-such-post'' =
       ((404, Message ''Post not found''), db_blog, [])"
    by blast
  moreover from t3 f1 have
    "fst (get_post counting_increment db_blog ''hello-world-foo'') =
       (200, PostJson (fst (counting_increment ?p))) \<and>
     snd (snd (get_post counting_increment db_blog ''hello-world-foo'')) =
       [IncrementViewCount (post_id ?p)] \<and>
     fst (snd (get_post counting_increment db_blog ''hello-world-foo'')) =
       (case snd (counting_increment ?p) db_blog of None \<Rightarrow> db_blog | Some db' \<Rightarrow> db')"
    by blast
  ultimately show ?thesis using f1 f2 by (simp add: inc cnt wr pid same)
qed

section \<open>Updating a post\<close>






section \<open>The ownership test of \<open>PUT /:id\<close> and \<open>DELETE /:id\<close>\<close>

text \<open>The resolver hands the routes a post whose author is populated; the text the test
  makes of a populated author is never an identifier, so only the role can let a caller
  through: every caller whose role is not \<open>admin\<close> is answered 403 on every post that
  resolves.\<close>

lemma inspect_doc_not_id: "matches_ObjectId uid \<Longrightarrow> js_String (RefDoc i n) \<noteq> uid"
proof
  assume m: "matches_ObjectId uid" and e: "js_String (RefDoc i n) = uid"
  have "length (js_String (RefDoc i n)) > 24" by (simp add: inspect_doc_def)
  thus False using m e by (simp add: matches_ObjectId_def)
qed

lemma owner_not_authorized:
  "matches_ObjectId (user_id user) \<Longrightarrow> role user \<noteq> ''admin'' \<Longrightarrow> author post = RefDoc i n \<Longrightarrow>
   not_authorized user post"
  using inspect_doc_not_id[of "user_id user" i n] by (simp add: not_authorized_def)

lemma resolved_is_populated:
  "findPostByIdOrSlug db s = Some post \<Longrightarrow> \<exists>p. post = populated db p"
  by (auto simp: findPostByIdOrSlug_def populated_def split: if_splits option.splits)

lemma populated_author_no_id:
  "matches_ObjectId uid \<Longrightarrow> js_String (author (populated db p)) \<noteq> uid"
proof -
  assume m: "matches_ObjectId uid"
  have a: "author (populated db p) = populate_ref (user_name_of db) (author p)"
    by (simp add: populated_def populate_category_def populate_author_def)
  have "js_String (populate_ref (user_name_of db) (author p)) \<noteq> uid"
  proof (cases "populate_ref (user_name_of db) (author p)")
    case (RefId i)
    then show ?thesis by (auto simp: populate_ref_def split: ref.splits option.splits)
  next
    case (RefDoc i n)
    then show ?thesis using inspect_doc_not_id[OF m, of i n] by simp
  next
    case RefNull
    then show ?thesis using m by (auto simp: matches_ObjectId_def)
  qed
  thus ?thesis using a by simp
qed

lemma only_admin_passes:
  assumes uid: "matches_ObjectId (user_id user)" and member: "role user \<noteq> ''admin''"
    and found: "findPostByIdOrSlug db s = Some post"
  shows "update_post save m db user s b = ((403, Message ''Not authorized''), db)"
    and "delete_post remove db user s = ((403, Message ''Not authorized''), db)"
proof -
  from found obtain p where "post = populated db p" using resolved_is_populated by blast
  hence "not_authorized user post"
    using populated_author_no_id[OF uid, of db p] member by (simp add: not_authorized_def)
  thus "update_post save m db user s b = ((403, Message ''Not authorized''), db)"
    and "delete_post remove db user s = ((403, Message ''Not authorized''), db)"
    using found by (simp_all add: update_post_def delete_post_def)
qed

text \<open>
  Claim C1 on the example store: the first user is the author of the first post, passes
  \<open>authenticate\<close>, and is answered 403 by the update and by the delete of that post, whatever
  \<open>save\<close> and \<open>remove\<close> would do.
\<close>

theorem author_is_refused:
  "author post_hello = RefId (user_id alice) \<and>
   authenticate demo_lib None 2000000 db_blog
       [''authorization'' \<mapsto> ''Bearer header.payload.signature''] =
     Inr (alice\<lparr>password := None\<rparr>) \<and>
   update_post save m db_blog (alice\<lparr>password := None\<rparr>) (post_id post_hello)
       [''content'' \<mapsto> JStr ''edited''] =
     ((403, Message ''Not authorized''), db_blog) \<and>
   delete_post remove db_blog (alice\<lparr>password := None\<rparr>) (post_id post_hello) =
     ((403, Message ''Not authorized''), db_blog)"
proof -
  have a: "author post_hello = RefId (user_id alice)" by code_simp
  have g: "authenticate demo_lib None 2000000 db_blog
       [''authorization'' \<mapsto> ''Bearer header.payload.signature''] =
     Inr (alice\<lparr>password := None\<rparr>)"
    by (simp add: authenticate_def authHeader_of_def js_or_def startsWith_def demo_token
        demo_verify demo_user select_without_password_def)
  have r: "findPostByIdOrSlug db_blog (post_id post_hello) = Some (populated db_blog post_hello)"
    by code_simp
  have n: "not_authorized (alice\<lparr>password := None\<rparr>) (populated db_blog post_hello)"
    by code_simp
  have u: "update_post save m db_blog (alice\<lparr>password := None\<rparr>) (post_id post_hello)
       [''content'' \<mapsto> JStr ''edited''] = ((403, Message ''Not authorized''), db_blog)"
    using r n by (simp add: update_post_def)
  have d: "delete_post remove db_blog (alice\<lparr>password := None\<rparr>) (post_id post_hello) =
     ((403, Message ''Not authorized''), db_blog)"
    using r n by (simp add: delete_post_def)
  from a g u d show ?thesis by (intro conjI)
qed

section \<open>The search route\<close>

text \<open>No \<open>GET\<close> path reaches the search handler: \<open>/:id\<close> is registered before
  \<open>/search\<close> and matches it.\<close>

lemma first_match_never_search:
  assumes fm: "first_match GET path posts_routes = Some (r, params)"
  shows "route_handler r \<noteq> SearchPosts"
proof (cases path)
  case Nil
  with fm show ?thesis by (auto simp: posts_routes_def)
next
  case (Cons s ss)
  show ?thesis
  proof (cases ss)
    case Nil
    show ?thesis
    proof (cases "s = []")
      case True
      with fm Nil Cons show ?thesis by (auto simp: posts_routes_def toLowerCase_def split: if_splits)
    next
      case False
      with fm Nil Cons show ?thesis by (auto simp: posts_routes_def)
    qed
  next
    case inner: (Cons t ts)
    with fm Cons show ?thesis by (auto simp: posts_routes_def split: if_splits)
  qed
qed

text \<open>
  Claim C10 on the example store: \<open>GET /search\<close> is dispatched to the handler of
  \<open>GET /:id\<close> with \<open>search\<close> as the identifier or slug and is answered 404, since no
  post has that slug; the search handler, had it run on a query that matches both posts,
  would have answered 200 with both.
\<close>

theorem search_is_served_as_a_post_lookup:
  "dispatch GET [''search''] = Some (GetPost, False, [''search'']) \<and>
   fst (get_post inc db_blog ''search'') = (404, Message ''Post not found'') \<and>
   search_posts (\<lambda>q p. True) db_blog (Some ''hello'') =
     (200, PostsJson [populate_author db_blog post_hello, populate_author db_blog post_shadow])"
proof -
  have d: "dispatch GET [''search''] = Some (GetPost, False, [''search''])" by code_simp
  have r: "findPostByIdOrSlug db_blog ''search'' = None" by code_simp
  have s: "search_posts (\<lambda>q p. True) db_blog (Some ''hello'') =
     (200, PostsJson [populate_author db_blog post_hello, populate_author db_blog post_shadow])"
    by code_simp
  show ?thesis using d r s by (simp add: get_post_def)
qed

end
